theory Spec2Isabelle
  imports Complex_Main
begin

section \<open>Tensors\<close>

text \<open>
  The kernel \<^verbatim>\<open>compute_radiance\<close> of
  \<^verbatim>\<open>tensorflow_graphics/rendering/volumetric/ray_radiance.py\<close> works on dense
  tensors. A tensor is modelled by its static shape and its elements in row-major order.
  Every dimension of a shape is known (no dynamic dimension), and an element is a real
  number: the arithmetic of the model is exact, rounding, underflow, overflow, \<^verbatim>\<open>inf\<close> and
  \<^verbatim>\<open>nan\<close> of the floating-point types are not part of it.
\<close>

record tensor =
  shape :: "nat list"
  elems :: "real list"

definition wf_tensor :: "tensor \<Rightarrow> bool" where
  "wf_tensor t \<longleftrightarrow> length (elems t) = prod_list (shape t)"

text \<open>
  The results below relate the outputs of the kernel to the elements \<open>item t idx\<close> of its
  inputs at the multi-indices in range of their shapes; on a well-formed tensor these are
  its elements.
\<close>

text \<open>A multi-index is in range of a shape when it has one entry per axis, each below
  the size of its axis.\<close>

definition in_range :: "nat list \<Rightarrow> nat list \<Rightarrow> bool" where
  "in_range sh idx \<longleftrightarrow> list_all2 (<) idx sh"

text \<open>Row-major position of a multi-index, and the multi-index of a position.\<close>

fun offset :: "nat list \<Rightarrow> nat list \<Rightarrow> nat" where
  "offset (n # ns) (i # js) = i * prod_list ns + offset ns js"
| "offset _ _ = 0"

fun unoffset :: "nat list \<Rightarrow> nat \<Rightarrow> nat list" where
  "unoffset [] k = []"
| "unoffset (n # ns) k = (k div prod_list ns) # unoffset ns (k mod prod_list ns)"

definition item :: "tensor \<Rightarrow> nat list \<Rightarrow> real" where
  "item t idx = elems t ! offset (shape t) idx"

text \<open>The tensor of a given shape whose element at each multi-index is given by a
  function.\<close>

definition mk :: "nat list \<Rightarrow> (nat list \<Rightarrow> real) \<Rightarrow> tensor" where
  "mk sh f = \<lparr>shape = sh, elems = map (\<lambda>k. f (unoffset sh k)) [0..<prod_list sh]\<rparr>"

section \<open>Errors\<close>

text \<open>
  \<open>ShapeError\<close> is the error of the shape checks (a \<^verbatim>\<open>ValueError\<close> of the
  \<^verbatim>\<open>shape\<close> utilities); \<open>InvalidArgument\<close> is the error an array primitive raises
  when it is applied to operands whose shapes it does not accept.
\<close>

datatype error = ShapeError | InvalidArgument

definition and_then :: "error + 'a \<Rightarrow> ('a \<Rightarrow> error + 'b) \<Rightarrow> error + 'b" where
  "and_then r f = (case r of Inl e \<Rightarrow> Inl e | Inr x \<Rightarrow> f x)"

section \<open>The array primitives the kernel calls\<close>

text \<open>Elementwise operations with one tensor operand: \<^verbatim>\<open>-x\<close>, \<^verbatim>\<open>tf.exp(x)\<close>,
  \<^verbatim>\<open>c - x\<close> and \<^verbatim>\<open>x + c\<close> for a Python scalar \<open>c\<close>.\<close>

definition map_tensor :: "(real \<Rightarrow> real) \<Rightarrow> tensor \<Rightarrow> tensor" where
  "map_tensor f t = mk (shape t) (\<lambda>idx. f (item t idx))"

definition tf_neg :: "tensor \<Rightarrow> tensor" where
  "tf_neg t = map_tensor (\<lambda>x. - x) t"

definition tf_exp :: "tensor \<Rightarrow> tensor" where
  "tf_exp t = map_tensor exp t"

definition scalar_sub :: "real \<Rightarrow> tensor \<Rightarrow> tensor" where
  "scalar_sub c t = map_tensor (\<lambda>x. c - x) t"

definition add_scalar :: "tensor \<Rightarrow> real \<Rightarrow> tensor" where
  "add_scalar t c = map_tensor (\<lambda>x. x + c) t"

text \<open>
  Broadcasting of two shapes: the shorter shape is padded with ones on the left; two
  sizes are compatible when they are equal or one of them is 1, and the result takes the
  size that is not 1.
\<close>

definition pad_shape :: "nat \<Rightarrow> nat list \<Rightarrow> nat list" where
  "pad_shape n sh = replicate (n - length sh) 1 @ sh"

definition dims_compatible :: "nat \<Rightarrow> nat \<Rightarrow> bool" where
  "dims_compatible x y \<longleftrightarrow> x = y \<or> x = 1 \<or> y = 1"

definition broadcast_dim :: "nat \<Rightarrow> nat \<Rightarrow> nat" where
  "broadcast_dim x y = (if x = 1 then y else x)"

definition broadcast_shape :: "nat list \<Rightarrow> nat list \<Rightarrow> nat list option" where
  "broadcast_shape a b =
     (let n = max (length a) (length b); a' = pad_shape n a; b' = pad_shape n b
      in if list_all2 dims_compatible a' b' then Some (map2 broadcast_dim a' b') else None)"

text \<open>The multi-index an operand of shape \<open>sh\<close> is read at for the multi-index \<open>idx\<close>
  of the broadcast result: the trailing axes of \<open>idx\<close>, with 0 on every axis of size 1.\<close>

definition bproj :: "nat list \<Rightarrow> nat list \<Rightarrow> nat list" where
  "bproj sh idx = map2 (\<lambda>n i. if n = 1 then 0 else i) sh (drop (length idx - length sh) idx)"

text \<open>\<^verbatim>\<open>a * b\<close> on two tensors.\<close>

definition tf_mul :: "tensor \<Rightarrow> tensor \<Rightarrow> error + tensor" where
  "tf_mul a b =
     (case broadcast_shape (shape a) (shape b) of
        None \<Rightarrow> Inl InvalidArgument
      | Some sh \<Rightarrow>
          Inr (mk sh (\<lambda>idx. item a (bproj (shape a) idx) * item b (bproj (shape b) idx))))"

text \<open>\<^verbatim>\<open>tf.expand_dims(t, -1)\<close>.\<close>

definition tf_expand_dims_last :: "tensor \<Rightarrow> tensor" where
  "tf_expand_dims_last t = mk (shape t @ [1]) (\<lambda>idx. item t (butlast idx))"

text \<open>\<^verbatim>\<open>tf.squeeze(t, -1)\<close>.\<close>

definition tf_squeeze_last :: "tensor \<Rightarrow> error + tensor" where
  "tf_squeeze_last t =
     (if shape t \<noteq> [] \<and> last (shape t) = 1
      then Inr (mk (butlast (shape t)) (\<lambda>idx. item t (idx @ [0])))
      else Inl InvalidArgument)"

text \<open>\<^verbatim>\<open>tf.split(t, [3, 1], axis=-1)\<close>.\<close>

definition tf_split_3_1 :: "tensor \<Rightarrow> error + (tensor \<times> tensor)" where
  "tf_split_3_1 t =
     (if shape t \<noteq> [] \<and> last (shape t) = 4
      then Inr (mk (butlast (shape t) @ [3]) (\<lambda>idx. item t idx),
                mk (butlast (shape t) @ [1]) (\<lambda>idx. item t (butlast idx @ [last idx + 3])))
      else Inl InvalidArgument)"

text \<open>\<^verbatim>\<open>tf.math.cumprod(t, -1, exclusive=True)\<close>: along the last axis, the element at
  position \<open>i\<close> is the product of the elements at the positions below \<open>i\<close>.\<close>

definition tf_cumprod_exclusive_last :: "tensor \<Rightarrow> error + tensor" where
  "tf_cumprod_exclusive_last t =
     (if shape t = [] then Inl InvalidArgument
      else Inr (mk (shape t)
        (\<lambda>idx. prod_list (map (\<lambda>j. item t (butlast idx @ [j])) [0..<last idx]))))"

text \<open>\<^verbatim>\<open>tf.reduce_sum(t, -1)\<close> and \<^verbatim>\<open>tf.reduce_sum(t, -2)\<close>.\<close>

definition tf_reduce_sum_last :: "tensor \<Rightarrow> error + tensor" where
  "tf_reduce_sum_last t =
     (if shape t = [] then Inl InvalidArgument
      else Inr (mk (butlast (shape t))
        (\<lambda>idx. sum_list (map (\<lambda>j. item t (idx @ [j])) [0..<last (shape t)]))))"

definition tf_reduce_sum_penult :: "tensor \<Rightarrow> error + tensor" where
  "tf_reduce_sum_penult t =
     (if length (shape t) < 2 then Inl InvalidArgument
      else Inr (mk (butlast (butlast (shape t)) @ [last (shape t)])
        (\<lambda>idx. sum_list (map (\<lambda>j. item t (butlast idx @ [j, last idx]))
                  [0..<last (butlast (shape t))]))))"

section \<open>The shape checks\<close>

text \<open>Size of an axis, the axis counted from the end when it is negative.\<close>

definition get_dim :: "nat list \<Rightarrow> int \<Rightarrow> nat option" where
  "get_dim sh axis =
     (let n = int (length sh); j = (if axis < 0 then n + axis else axis)
      in if 0 \<le> j \<and> j < n then Some (sh ! nat j) else None)"

text \<open>Modelled from the spec: \<^verbatim>\<open>shape.check_static(tensor, has_dim_equals=(axis, value))\<close>
  of \<^verbatim>\<open>tensorflow_graphics/util/shape.py\<close>, which is not among the sources. The spec:
  "\<^verbatim>\<open>samples\<close> last-axis size must equal 4; fails with a ShapeError otherwise".\<close>

definition check_static_has_dim_equals :: "tensor \<Rightarrow> int \<Rightarrow> nat \<Rightarrow> error + unit" where
  "check_static_has_dim_equals t axis v =
     (if get_dim (shape t) axis = Some v then Inr () else Inl ShapeError)"

text \<open>Modelled from the spec: \<^verbatim>\<open>shape.check_static(tensor, has_rank_greater_than=r)\<close>
  of \<^verbatim>\<open>tensorflow_graphics/util/shape.py\<close>, which is not among the sources. The spec:
  "\<^verbatim>\<open>samples\<close> rank must exceed 1 [...]; fails with ShapeError otherwise".\<close>

definition check_static_has_rank_greater_than :: "tensor \<Rightarrow> nat \<Rightarrow> error + unit" where
  "check_static_has_rank_greater_than t r =
     (if r < length (shape t) then Inr () else Inl ShapeError)"

text \<open>The axes \<^verbatim>\<open>shape[0 : last_axis + 1]\<close>, a negative \<^verbatim>\<open>last_axis\<close> counted from the
  end.\<close>

definition batch_dimensions :: "nat list \<Rightarrow> int \<Rightarrow> nat list" where
  "batch_dimensions sh last_axis =
     (let j = (if last_axis < 0 then int (length sh) + last_axis else last_axis)
      in take (nat (j + 1)) sh)"

text \<open>Modelled from the spec:
  \<^verbatim>\<open>shape.compare_batch_dimensions(tensors, last_axes, broadcast_compatible=True)\<close> of
  \<^verbatim>\<open>tensorflow_graphics/util/shape.py\<close>, which is not among the sources. The spec: "All
  batch dimensions of \<^verbatim>\<open>samples\<close> and \<^verbatim>\<open>distances\<close> (every axis except the sample axis
  and channel axis) must be pairwise equal or broadcastable (one side is size 1); fails
  with ShapeError otherwise". Batch shapes of different lengths are aligned at their last
  axis, as broadcasting does.\<close>

definition compare_batch_dimensions :: "tensor \<Rightarrow> tensor \<Rightarrow> int \<Rightarrow> error + unit" where
  "compare_batch_dimensions a b last_axes =
     (if broadcast_shape (batch_dimensions (shape a) last_axes)
           (batch_dimensions (shape b) last_axes) \<noteq> None
      then Inr () else Inl ShapeError)"

text \<open>Modelled from the spec: \<^verbatim>\<open>shape.compare_dimensions(tensors, axes)\<close> of
  \<^verbatim>\<open>tensorflow_graphics/util/shape.py\<close>, which is not among the sources. The spec: "The
  sample-count axis (\<^verbatim>\<open>N\<close>) of \<^verbatim>\<open>samples\<close> and \<^verbatim>\<open>distances\<close> must be exactly equal (no
  broadcasting permitted on this axis); fails with ShapeError otherwise".\<close>

definition compare_dimensions :: "tensor \<Rightarrow> tensor \<Rightarrow> int \<Rightarrow> error + unit" where
  "compare_dimensions a b axis =
     (case (get_dim (shape a) axis, get_dim (shape b) axis) of
        (Some x, Some y) \<Rightarrow> if x = y then Inr () else Inl ShapeError
      | _ \<Rightarrow> Inl ShapeError)"

section \<open>The kernel\<close>

text \<open>The stabilizing constant \<^verbatim>\<open>1e-10\<close> of the cumulative product.\<close>

definition epsilon :: real where
  "epsilon = 1 / 10 ^ 10"

text \<open>Lines 50 to 68: the five shape checks, in the order of the source; \<open>distances\<close> is
  the distances tensor after \<^verbatim>\<open>tf.expand_dims(distances, -1)\<close>.\<close>

definition check_shapes :: "tensor \<Rightarrow> tensor \<Rightarrow> error + unit" where
  "check_shapes rgba_values distances =
     and_then (check_static_has_dim_equals rgba_values (- 1) 4) (\<lambda>_.
     and_then (check_static_has_rank_greater_than rgba_values 1) (\<lambda>_.
     and_then (check_static_has_rank_greater_than distances 1) (\<lambda>_.
     and_then (compare_batch_dimensions rgba_values distances (- 3)) (\<lambda>_.
     compare_dimensions rgba_values distances (- 2)))))"

text \<open>Lines 71 and 72: \<^verbatim>\<open>alpha = tf.squeeze(1. - tf.exp(-sigma_a * distances), -1)\<close>.\<close>

definition compute_alpha :: "tensor \<Rightarrow> tensor \<Rightarrow> error + tensor" where
  "compute_alpha sigma_a distances =
     and_then (tf_mul (tf_neg sigma_a) distances) (\<lambda>x.
     tf_squeeze_last (scalar_sub 1 (tf_exp x)))"

text \<open>Line 73, the second factor:
  \<^verbatim>\<open>tf.math.cumprod(1. - alpha + 1e-10, -1, exclusive=True)\<close>.\<close>

definition compute_transmittance :: "tensor \<Rightarrow> error + tensor" where
  "compute_transmittance alpha =
     tf_cumprod_exclusive_last (add_scalar (scalar_sub 1 alpha) epsilon)"

text \<open>\<^verbatim>\<open>compute_radiance(rgba_values, distances)\<close>: the estimated rgb values, the
  estimated density values and the sample weights, or the error raised.\<close>

definition compute_radiance :: "tensor \<Rightarrow> tensor \<Rightarrow> error + (tensor \<times> tensor \<times> tensor)" where
  "compute_radiance rgba_values distances0 =
     (let distances = tf_expand_dims_last distances0 in
      and_then (check_shapes rgba_values distances) (\<lambda>_.
      and_then (tf_split_3_1 rgba_values) (\<lambda>(rgb, sigma_a).
      and_then (compute_alpha sigma_a distances) (\<lambda>alpha.
      and_then (compute_transmittance alpha) (\<lambda>transmittance.
      and_then (tf_mul alpha transmittance) (\<lambda>weights.
      and_then (tf_mul (tf_expand_dims_last weights) rgb) (\<lambda>weighted_rgb.
      and_then (tf_reduce_sum_penult weighted_rgb) (\<lambda>rgb_map.
      and_then (tf_reduce_sum_last weights) (\<lambda>acc_map.
      Inr (rgb_map, tf_expand_dims_last acc_map, weights))))))))))"

text \<open>The intermediate tensor \<open>alpha\<close> of a call (lines 70 to 72), after the shape
  checks.\<close>

definition radiance_alpha :: "tensor \<Rightarrow> tensor \<Rightarrow> error + tensor" where
  "radiance_alpha rgba_values distances0 =
     (let distances = tf_expand_dims_last distances0 in
      and_then (check_shapes rgba_values distances) (\<lambda>_.
      and_then (tf_split_3_1 rgba_values) (\<lambda>(rgb, sigma_a).
      compute_alpha sigma_a distances)))"

section \<open>The compositing formulas of the specification\<close>

text \<open>
  For one ray with densities \<open>sigma i\<close>, distances \<open>delta i\<close> and colors \<open>rgb i c\<close>:
  \<open>alpha_i = 1 - exp (- sigma_i * distance_i)\<close>; \<open>T_i\<close> is the product over \<open>j < i\<close> of
  \<open>1 - alpha_j + 1e-10\<close>; \<open>weight_i = alpha_i * T_i\<close>; the color is the sum of
  \<open>weight_i * rgb_i\<close> and the opacity the sum of \<open>weight_i\<close>.
\<close>

definition spec_alpha :: "(nat \<Rightarrow> real) \<Rightarrow> (nat \<Rightarrow> real) \<Rightarrow> nat \<Rightarrow> real" where
  "spec_alpha sigma delta i = 1 - exp (- sigma i * delta i)"

definition spec_T :: "(nat \<Rightarrow> real) \<Rightarrow> (nat \<Rightarrow> real) \<Rightarrow> nat \<Rightarrow> real" where
  "spec_T sigma delta i = (\<Prod>j<i. (1 - spec_alpha sigma delta j + 1 / 10 ^ 10))"

definition spec_weight :: "(nat \<Rightarrow> real) \<Rightarrow> (nat \<Rightarrow> real) \<Rightarrow> nat \<Rightarrow> real" where
  "spec_weight sigma delta i = spec_alpha sigma delta i * spec_T sigma delta i"

definition spec_color ::
  "nat \<Rightarrow> (nat \<Rightarrow> real) \<Rightarrow> (nat \<Rightarrow> real) \<Rightarrow> (nat \<Rightarrow> nat \<Rightarrow> real) \<Rightarrow> nat \<Rightarrow> real" where
  "spec_color N sigma delta rgb c = (\<Sum>i<N. spec_weight sigma delta i * rgb i c)"

definition spec_opacity :: "nat \<Rightarrow> (nat \<Rightarrow> real) \<Rightarrow> (nat \<Rightarrow> real) \<Rightarrow> real" where
  "spec_opacity N sigma delta = (\<Sum>i<N. spec_weight sigma delta i)"

text \<open>The ray of a batch element \<open>b\<close> of the result: its densities, colors and distances,
  read from the operands where broadcasting reads them. \<open>A\<close> and \<open>B\<close> are the batch
  shapes of the samples and of the distances.\<close>

definition ray_sigma :: "tensor \<Rightarrow> nat list \<Rightarrow> nat list \<Rightarrow> nat \<Rightarrow> real" where
  "ray_sigma samples A b i = item samples (bproj A b @ [i, 3])"

definition ray_rgb :: "tensor \<Rightarrow> nat list \<Rightarrow> nat list \<Rightarrow> nat \<Rightarrow> nat \<Rightarrow> real" where
  "ray_rgb samples A b i c = item samples (bproj A b @ [i, c])"

definition ray_dist :: "tensor \<Rightarrow> nat list \<Rightarrow> nat list \<Rightarrow> nat \<Rightarrow> real" where
  "ray_dist distances B b i = item distances (bproj B b @ [i])"

section \<open>The shape preconditions of the specification\<close>

text \<open>
  The shape preconditions of the specification, in its words, on the shape \<open>s\<close> of the
  samples and the shape \<open>d\<close> of the distances. One of them is violated when the last axis
  of the samples is not 4, the rank of the samples is not greater than 1, the rank of the
  distances with a unit axis appended is not greater than 1, a batch dimension of the
  samples and the batch dimension of the distances it is aligned with (counted from the
  sample axis backwards) are neither equal nor is one of them 1, or the sample counts
  differ. The batch dimensions are all axes but the last two of the samples and all axes
  but the last of the distances; the sample count is the last but one axis of the samples
  and the last axis of the distances.
\<close>

definition precondition_violated :: "nat list \<Rightarrow> nat list \<Rightarrow> bool" where
  "precondition_violated s d \<longleftrightarrow>
     s = [] \<or> last s \<noteq> 4
     \<or> length s \<le> 1
     \<or> length (d @ [1]) \<le> 1
     \<or> list_ex (\<lambda>(x, y). x \<noteq> y \<and> x \<noteq> 1 \<and> y \<noteq> 1)
          (zip (rev (butlast (butlast s))) (rev (butlast d)))
     \<or> last (butlast s) \<noteq> last d"

section \<open>The outputs of a call\<close>

text \<open>The three tensors a successful call returns.\<close>

definition color_of :: "error + (tensor \<times> tensor \<times> tensor) \<Rightarrow> tensor" where
  "color_of r = fst (projr r)"

definition opacity_of :: "error + (tensor \<times> tensor \<times> tensor) \<Rightarrow> tensor" where
  "opacity_of r = fst (snd (projr r))"

definition weights_of :: "error + (tensor \<times> tensor \<times> tensor) \<Rightarrow> tensor" where
  "weights_of r = snd (snd (projr r))"

section \<open>Reordering the samples of a ray\<close>

text \<open>Reordering the samples of every ray: sample \<open>i\<close> of the result is sample \<open>p i\<close> of
  the operand. The sample axis is the last but one axis of the samples and the last axis of
  the distances.\<close>

definition permute_samples :: "(nat \<Rightarrow> nat) \<Rightarrow> tensor \<Rightarrow> tensor" where
  "permute_samples p t =
     mk (shape t) (\<lambda>idx. item t (butlast (butlast idx) @ [p (last (butlast idx)), last idx]))"

definition permute_distances :: "(nat \<Rightarrow> nat) \<Rightarrow> tensor \<Rightarrow> tensor" where
  "permute_distances p t = mk (shape t) (\<lambda>idx. item t (butlast idx @ [p (last idx)]))"

text \<open>The permutation of two samples that exchanges them.\<close>

definition swap2 :: "nat \<Rightarrow> nat" where
  "swap2 i = 1 - i"

section \<open>Concrete inputs\<close>

text \<open>The end-to-end example of the specification: one ray with two samples,
  \<open>rgb = [[1,0,0],[0,1,0]]\<close>, \<open>sigma = [1,1]\<close> and \<open>distances = [1,1]\<close>.\<close>

definition example_samples :: tensor where
  "example_samples = \<lparr>shape = [2, 4], elems = [1, 0, 0, 1,  0, 1, 0, 1]\<rparr>"

definition example_distances :: tensor where
  "example_distances = \<lparr>shape = [2], elems = [1, 1]\<rparr>"

text \<open>Two samples of density zero, with distances 5 and 7.\<close>

definition clear_samples :: tensor where
  "clear_samples = \<lparr>shape = [2, 4], elems = [1, 0, 0, 0,  0, 1, 0, 0]\<rparr>"

definition far_distances :: tensor where
  "far_distances = \<lparr>shape = [2], elems = [5, 7]\<rparr>"

text \<open>One ray with three samples: two of density zero, then one of density \<open>10^11\<close>;
  every distance is 1.\<close>

definition bound_samples :: tensor where
  "bound_samples = \<lparr>shape = [3, 4], elems = [1, 1, 1, 0,  1, 1, 1, 0,  1, 1, 1, 10 ^ 11]\<rparr>"

definition bound_distances :: tensor where
  "bound_distances = \<lparr>shape = [3], elems = [1, 1, 1]\<rparr>"

text \<open>The same ray with the density of its first sample raised from 0 to 1.\<close>

definition raised_samples :: tensor where
  "raised_samples = \<lparr>shape = [3, 4], elems = [1, 1, 1, 1,  1, 1, 1, 0,  1, 1, 1, 10 ^ 11]\<rparr>"

text \<open>The end-to-end example with the density of its last sample raised from 1 to 2.\<close>

definition denser_samples :: tensor where
  "denser_samples = \<lparr>shape = [2, 4], elems = [1, 0, 0, 1,  0, 1, 0, 2]\<rparr>"

text \<open>Samples of shape \<open>[4, 5, 3]\<close>: the last axis is 3, not 4.\<close>

definition bad_samples :: tensor where
  "bad_samples = \<lparr>shape = [4, 5, 3], elems = replicate 60 0\<rparr>"

text \<open>Five rays of two samples each, with distances given once for all rays (batch
  dimension 1) and distances given for two rays (batch dimension 2).\<close>

definition batch_samples :: tensor where
  "batch_samples = \<lparr>shape = [5, 2, 4], elems = replicate 40 1\<rparr>"

definition single_distances :: tensor where
  "single_distances = \<lparr>shape = [1, 2], elems = [1, 1]\<rparr>"

definition pair_distances :: tensor where
  "pair_distances = \<lparr>shape = [2, 2], elems = [1, 1, 1, 1]\<rparr>"

section \<open>Indices and positions\<close>

lemma in_range_Nil [simp]: "in_range [] idx \<longleftrightarrow> idx = []"
  by (simp add: in_range_def)

lemma in_range_Cons:
  "in_range (n # ns) idx \<longleftrightarrow> (\<exists>i js. idx = i # js \<and> i < n \<and> in_range ns js)"
  by (cases idx) (simp_all add: in_range_def)

lemma in_range_Cons_Cons [simp]:
  "in_range (n # ns) (i # js) \<longleftrightarrow> i < n \<and> in_range ns js"
  by (simp add: in_range_def)

lemma in_range_length: "in_range sh idx \<Longrightarrow> length idx = length sh"
  by (simp add: in_range_def list_all2_lengthD)

lemma in_range_append:
  "length idx = length sh \<Longrightarrow>
   in_range (sh @ sh') (idx @ idx') \<longleftrightarrow> in_range sh idx \<and> in_range sh' idx'"
  by (simp add: in_range_def list_all2_append)

lemma in_range_snoc:
  "in_range (sh @ [n]) idx \<longleftrightarrow> (\<exists>b i. idx = b @ [i] \<and> in_range sh b \<and> i < n)"
proof (cases idx rule: rev_cases)
  case Nil
  then show ?thesis by (simp add: in_range_def)
next
  case (snoc b i)
  show ?thesis
  proof (cases "length b = length sh")
    case True
    then show ?thesis using snoc by (simp add: in_range_append)
  next
    case False
    then show ?thesis using snoc by (auto simp: in_range_def dest: list_all2_lengthD)
  qed
qed

lemma in_range_snoc_snoc [simp]:
  "in_range (sh @ [n]) (b @ [i]) \<longleftrightarrow> in_range sh b \<and> i < n"
  by (auto simp: in_range_snoc)

lemma in_range_snoc2 [simp]:
  "in_range (sh @ [n, c]) (b @ [i, j]) \<longleftrightarrow> in_range sh b \<and> i < n \<and> j < c"
  using in_range_snoc_snoc [of "sh @ [n]" c "b @ [i]" j] by simp

lemma in_range_nth:
  "in_range sh idx \<longleftrightarrow> length idx = length sh \<and> (\<forall>k<length sh. idx ! k < sh ! k)"
  by (auto simp: in_range_def list_all2_conv_all_nth)

lemma offset_lt: "in_range sh idx \<Longrightarrow> offset sh idx < prod_list sh"
proof (induction sh arbitrary: idx)
  case Nil
  then show ?case by simp
next
  case (Cons n ns)
  then obtain i js where idx: "idx = i # js" and i: "i < n" and js: "in_range ns js"
    by (auto simp: in_range_Cons)
  have o: "offset ns js < prod_list ns" using Cons.IH js by simp
  have "i * prod_list ns + offset ns js < i * prod_list ns + prod_list ns"
    using o by simp
  also have "\<dots> = Suc i * prod_list ns" by simp
  also have "\<dots> \<le> n * prod_list ns" using i by (intro mult_le_mono1) simp
  finally show ?case by (simp add: idx)
qed

lemma unoffset_offset: "in_range sh idx \<Longrightarrow> unoffset sh (offset sh idx) = idx"
proof (induction sh arbitrary: idx)
  case Nil
  then show ?case by simp
next
  case (Cons n ns)
  then obtain i js where idx: "idx = i # js" and i: "i < n" and js: "in_range ns js"
    by (auto simp: in_range_Cons)
  have o: "offset ns js < prod_list ns" using js by (rule offset_lt)
  show ?case using o Cons.IH [OF js] by (simp add: idx)
qed

lemma in_range_unoffset: "k < prod_list sh \<Longrightarrow> in_range sh (unoffset sh k)"
proof (induction sh arbitrary: k)
  case Nil
  then show ?case by simp
next
  case (Cons n ns)
  have pos: "0 < prod_list ns" using Cons.prems by (cases "prod_list ns = 0") simp_all
  have "k div prod_list ns < n"
    using Cons.prems pos by (simp add: less_mult_imp_div_less mult.commute)
  moreover have "in_range ns (unoffset ns (k mod prod_list ns))"
    using pos by (intro Cons.IH) simp
  ultimately show ?case by simp
qed

section \<open>Tensors given by a function\<close>

lemma shape_mk [simp]: "shape (mk sh f) = sh"
  by (simp add: mk_def)

lemma wf_mk [simp]: "wf_tensor (mk sh f)"
  by (simp add: mk_def wf_tensor_def)

text \<open>The concrete inputs are well-formed tensors: each has as many elements as its shape
  asks for.\<close>

lemma concrete_inputs_wf:
  "wf_tensor example_samples" "wf_tensor example_distances"
  "wf_tensor clear_samples" "wf_tensor far_distances"
  "wf_tensor bound_samples" "wf_tensor bound_distances"
  "wf_tensor raised_samples" "wf_tensor denser_samples"
  "wf_tensor bad_samples" "wf_tensor batch_samples"
  "wf_tensor single_distances" "wf_tensor pair_distances"
  by (simp_all add: wf_tensor_def example_samples_def example_distances_def
      clear_samples_def far_distances_def bound_samples_def bound_distances_def
      raised_samples_def denser_samples_def bad_samples_def batch_samples_def
      single_distances_def pair_distances_def)

lemma item_mk [simp]: "in_range sh idx \<Longrightarrow> item (mk sh f) idx = f idx"
  by (simp add: mk_def item_def offset_lt unoffset_offset)

lemma mk_cong: "(\<And>idx. in_range sh idx \<Longrightarrow> f idx = g idx) \<Longrightarrow> mk sh f = mk sh g"
  by (simp add: mk_def in_range_unoffset)


section \<open>Broadcasting\<close>

lemma bproj_in_range: "in_range sh idx \<Longrightarrow> bproj sh idx = idx"
  by (auto simp: bproj_def in_range_nth intro!: nth_equalityI)

lemma bproj_append:
  assumes "length sh' = length idx'" "length sh \<le> length idx"
  shows "bproj (sh @ sh') (idx @ idx')
         = bproj sh idx @ map2 (\<lambda>n i. if n = 1 then 0 else i) sh' idx'"
proof -
  have "drop (length (idx @ idx') - length (sh @ sh')) (idx @ idx')
        = drop (length idx - length sh) idx @ idx'"
    using assms by simp
  moreover have "length (drop (length idx - length sh) idx) = length sh"
    using assms by simp
  ultimately show ?thesis by (simp add: bproj_def)
qed

lemma broadcast_shape_length:
  "broadcast_shape A B = Some C \<Longrightarrow> length C = max (length A) (length B)"
  by (auto simp: broadcast_shape_def Let_def pad_shape_def split: if_splits)

lemma broadcast_shape_refl: "broadcast_shape A A = Some A"
  by (auto simp: broadcast_shape_def Let_def pad_shape_def dims_compatible_def
      broadcast_dim_def list_all2_conv_all_nth intro!: nth_equalityI)


lemma length_pad_shape: "length sh \<le> n \<Longrightarrow> length (pad_shape n sh) = n"
  by (simp add: pad_shape_def)

lemma pad_shape_nth:
  "k < length sh \<Longrightarrow> pad_shape n sh ! (k + (n - length sh)) = sh ! k"
  by (simp add: pad_shape_def nth_append)

lemma broadcast_shapeD:
  assumes "broadcast_shape A B = Some C"
  defines "n \<equiv> max (length A) (length B)"
  shows "list_all2 dims_compatible (pad_shape n A) (pad_shape n B)"
    and "C = map2 broadcast_dim (pad_shape n A) (pad_shape n B)"
    and "length C = n"
  using assms by (auto simp: broadcast_shape_def Let_def length_pad_shape split: if_splits)

lemma broadcast_shape_nth:
  assumes bc: "broadcast_shape A B = Some C" and j: "j < length C"
  shows "dims_compatible (pad_shape (length C) A ! j) (pad_shape (length C) B ! j)"
    and "C ! j = broadcast_dim (pad_shape (length C) A ! j) (pad_shape (length C) B ! j)"
proof -
  let ?n = "max (length A) (length B)"
  have n: "length C = ?n" using broadcast_shapeD(3) [OF bc] .
  have la: "list_all2 dims_compatible (pad_shape ?n A) (pad_shape ?n B)"
    using broadcast_shapeD(1) [OF bc] .
  have c: "C = map2 broadcast_dim (pad_shape ?n A) (pad_shape ?n B)"
    using broadcast_shapeD(2) [OF bc] .
  have len: "length (pad_shape ?n A) = ?n" "length (pad_shape ?n B) = ?n"
    by (simp_all add: length_pad_shape)
  show "dims_compatible (pad_shape (length C) A ! j) (pad_shape (length C) B ! j)"
    using la j len unfolding n by (simp add: list_all2_conv_all_nth)
  have "C ! j = map2 broadcast_dim (pad_shape ?n A) (pad_shape ?n B) ! j"
    using c by simp
  also have "\<dots> = broadcast_dim (pad_shape ?n A ! j) (pad_shape ?n B ! j)"
    using j len unfolding n by simp
  finally show "C ! j = broadcast_dim (pad_shape (length C) A ! j) (pad_shape (length C) B ! j)"
    unfolding n .
qed

lemma bproj_nth:
  assumes "length sh \<le> length idx" "k < length sh"
  shows "bproj sh idx ! k = (if sh ! k = 1 then 0 else idx ! (k + (length idx - length sh)))"
  using assms by (simp add: bproj_def add.commute)

lemma length_bproj: "length sh \<le> length idx \<Longrightarrow> length (bproj sh idx) = length sh"
  by (simp add: bproj_def)

lemma bproj_left_in_range:
  assumes bc: "broadcast_shape A B = Some C" and b: "in_range C b"
  shows "in_range A (bproj A b)"
proof -
  have lb: "length b = length C" using b by (rule in_range_length)
  have lc: "length C = max (length A) (length B)" using bc by (rule broadcast_shape_length)
  have la: "length A \<le> length b" using lb lc by simp
  show ?thesis unfolding in_range_nth
  proof (intro conjI allI impI)
    show "length (bproj A b) = length A" using la by (rule length_bproj)
  next
    fix k assume k: "k < length A"
    let ?j = "k + (length C - length A)"
    have j: "?j < length C" using k lc by simp
    have bj: "b ! ?j < C ! ?j" using b j by (simp add: in_range_nth)
    have pa: "pad_shape (length C) A ! ?j = A ! k" using k by (rule pad_shape_nth)
    show "bproj A b ! k < A ! k"
    proof (cases "A ! k = 1")
      case True
      then show ?thesis using la k by (simp add: bproj_nth)
    next
      case False
      have "C ! ?j = A ! k"
        using broadcast_shape_nth(2) [OF bc j] pa False by (simp add: broadcast_dim_def)
      then show ?thesis using la k False bj lb by (simp add: bproj_nth)
    qed
  qed
qed

lemma bproj_right_in_range:
  assumes bc: "broadcast_shape A B = Some C" and b: "in_range C b"
  shows "in_range B (bproj B b)"
proof -
  have lb: "length b = length C" using b by (rule in_range_length)
  have lc: "length C = max (length A) (length B)" using bc by (rule broadcast_shape_length)
  have la: "length B \<le> length b" using lb lc by simp
  show ?thesis unfolding in_range_nth
  proof (intro conjI allI impI)
    show "length (bproj B b) = length B" using la by (rule length_bproj)
  next
    fix k assume k: "k < length B"
    let ?j = "k + (length C - length B)"
    have j: "?j < length C" using k lc by simp
    have bj: "b ! ?j < C ! ?j" using b j by (simp add: in_range_nth)
    have pa: "pad_shape (length C) B ! ?j = B ! k" using k by (rule pad_shape_nth)
    show "bproj B b ! k < B ! k"
    proof (cases "B ! k = 1")
      case True
      then show ?thesis using la k by (simp add: bproj_nth)
    next
      case False
      have "C ! ?j = B ! k"
        using broadcast_shape_nth [OF bc j] pa False
        by (auto simp: broadcast_dim_def dims_compatible_def)
      then show ?thesis using la k False bj lb by (simp add: bproj_nth)
    qed
  qed
qed


lemma pad_shape_append:
  "pad_shape (n + length S) (A @ S) = pad_shape n A @ S"
  by (simp add: pad_shape_def)

lemma broadcast_shape_append:
  assumes bc: "broadcast_shape A B = Some C"
    and len: "length S = length S'"
    and compat: "list_all2 dims_compatible S S'"
  shows "broadcast_shape (A @ S) (B @ S') = Some (C @ map2 broadcast_dim S S')"
proof -
  let ?n = "max (length A) (length B)"
  have m: "max (length (A @ S)) (length (B @ S')) = ?n + length S"
    using len by simp
  have pa: "pad_shape (?n + length S) (A @ S) = pad_shape ?n A @ S"
    by (rule pad_shape_append)
  have pb: "pad_shape (?n + length S) (B @ S') = pad_shape ?n B @ S'"
    using pad_shape_append [of ?n S' B] len by simp
  have l: "length (pad_shape ?n A) = length (pad_shape ?n B)"
    by (simp add: length_pad_shape)
  have "list_all2 dims_compatible (pad_shape ?n A @ S) (pad_shape ?n B @ S')"
    using broadcast_shapeD(1) [OF bc] compat l by (simp add: list_all2_append)
  moreover have "map2 broadcast_dim (pad_shape ?n A @ S) (pad_shape ?n B @ S')
                 = C @ map2 broadcast_dim S S'"
    using broadcast_shapeD(2) [OF bc] l by simp
  ultimately show ?thesis
    unfolding broadcast_shape_def Let_def m pa pb by simp
qed

lemma broadcast_shape_absorb:
  assumes bc: "broadcast_shape A B = Some C"
  shows "broadcast_shape C A = Some C"
proof -
  have lc: "length C = max (length A) (length B)" using bc by (rule broadcast_shape_length)
  then have m: "max (length C) (length A) = length C" by simp
  have pc: "pad_shape (length C) C = C" by (simp add: pad_shape_def)
  have lpa: "length (pad_shape (length C) A) = length C"
    using lc by (simp add: length_pad_shape)
  have nth: "dims_compatible (C ! j) (pad_shape (length C) A ! j)
             \<and> broadcast_dim (C ! j) (pad_shape (length C) A ! j) = C ! j"
    if j: "j < length C" for j
    using broadcast_shape_nth [OF bc j]
    by (auto simp: broadcast_dim_def dims_compatible_def split: if_splits)
  have "list_all2 dims_compatible C (pad_shape (length C) A)"
    using nth lpa by (simp add: list_all2_conv_all_nth)
  moreover have "map2 broadcast_dim C (pad_shape (length C) A) = C"
    using nth lpa by (auto intro!: nth_equalityI)
  ultimately show ?thesis
    unfolding broadcast_shape_def Let_def m pc by simp
qed

section \<open>The primitives on tensors given by functions\<close>

lemma map_tensor_mk:
  "map_tensor g (mk sh f) = mk sh (\<lambda>idx. g (f idx))"
  unfolding map_tensor_def by simp (rule mk_cong, simp)

lemma in_range_butlast:
  "in_range (sh @ [n]) idx \<Longrightarrow> in_range sh (butlast idx)"
  by (auto simp: in_range_snoc)

lemma tf_expand_dims_last_mk:
  "tf_expand_dims_last (mk sh f) = mk (sh @ [1]) (\<lambda>idx. f (butlast idx))"
  unfolding tf_expand_dims_last_def by (auto intro!: mk_cong simp: in_range_butlast)

lemma tf_squeeze_last_mk:
  "tf_squeeze_last (mk (sh @ [1]) f) = Inr (mk sh (\<lambda>idx. f (idx @ [0])))"
  unfolding tf_squeeze_last_def by (auto intro!: mk_cong)

lemma tf_mul_mk:
  assumes "broadcast_shape sa sb = Some sc"
  shows "tf_mul (mk sa f) (mk sb g)
         = Inr (mk sc (\<lambda>idx. f (bproj sa idx) * g (bproj sb idx)))"
  unfolding tf_mul_def using assms
  by (auto intro!: mk_cong simp: bproj_left_in_range bproj_right_in_range)

lemma tf_cumprod_exclusive_last_mk:
  "tf_cumprod_exclusive_last (mk (sh @ [n]) f)
   = Inr (mk (sh @ [n]) (\<lambda>idx. prod_list (map (\<lambda>j. f (butlast idx @ [j])) [0..<last idx])))"
  unfolding tf_cumprod_exclusive_last_def
  by (auto simp: in_range_snoc intro!: mk_cong arg_cong [where f = prod_list])

lemma tf_reduce_sum_last_mk:
  "tf_reduce_sum_last (mk (sh @ [n]) f)
   = Inr (mk sh (\<lambda>idx. sum_list (map (\<lambda>j. f (idx @ [j])) [0..<n])))"
  unfolding tf_reduce_sum_last_def
  by (auto intro!: mk_cong arg_cong [where f = sum_list])

lemma tf_reduce_sum_penult_mk:
  "tf_reduce_sum_penult (mk (sh @ [n, c]) f)
   = Inr (mk (sh @ [c]) (\<lambda>idx. sum_list (map (\<lambda>j. f (butlast idx @ [j, last idx])) [0..<n])))"
  unfolding tf_reduce_sum_penult_def
  by (auto simp: in_range_snoc butlast_append intro!: mk_cong arg_cong [where f = sum_list])

lemma tf_split_3_1_mk:
  "tf_split_3_1 (mk (sh @ [4]) f)
   = Inr (mk (sh @ [3]) f, mk (sh @ [1]) (\<lambda>idx. f (butlast idx @ [last idx + 3])))"
  unfolding tf_split_3_1_def
  by (auto simp: in_range_snoc intro!: mk_cong)

section \<open>The kernel on inputs of accepted shapes\<close>

lemma prod_list_upt: "prod_list (map f [0..<n]) = (\<Prod>j<n. f j)"
  for f :: "nat \<Rightarrow> real"
  by (induction n) simp_all

lemma sum_list_upt: "sum_list (map f [0..<n]) = (\<Sum>j<n. f j)"
  for f :: "nat \<Rightarrow> real"
  by (induction n) simp_all

lemma bproj_snoc:
  "length A \<le> length b \<Longrightarrow> i < N \<Longrightarrow> bproj (A @ [N]) (b @ [i]) = bproj A b @ [i]"
  using bproj_append [of "[N]" "[i]" A b] by auto

lemma bproj_snoc2:
  "length A \<le> length b \<Longrightarrow> i < N \<Longrightarrow>
   bproj (A @ [N, M]) (b @ [i, c]) = bproj A b @ [i, if M = 1 then 0 else c]"
  using bproj_append [of "[N, M]" "[i, c]" A b] by auto

lemma get_dim_last: "get_dim (sh @ [n]) (- 1) = Some n"
  by (simp add: get_dim_def Let_def nth_append)

lemma get_dim_penult: "get_dim (sh @ [n, c]) (- 2) = Some n"
  by (simp add: get_dim_def Let_def nth_append nat_add_distrib)

lemma batch_dimensions_snoc2: "batch_dimensions (sh @ [n, c]) (- 3) = sh"
  by (simp add: batch_dimensions_def Let_def)

lemma and_then_Inr [simp]: "and_then (Inr x) f = f x"
  by (simp add: and_then_def)

lemma and_then_Inl [simp]: "and_then (Inl e) f = Inl e"
  by (simp add: and_then_def)

lemma check_shapes_ok:
  assumes "shape samples = A @ [N, 4]" "shape distances = B @ [N]"
    "broadcast_shape A B = Some C"
  shows "check_shapes samples (tf_expand_dims_last distances) = Inr ()"
proof -
  have s: "shape samples = (A @ [N]) @ [4]" using assms(1) by simp
  have d: "shape (tf_expand_dims_last distances) = B @ [N, 1]"
    using assms(2) by (simp add: tf_expand_dims_last_def)
  show ?thesis
    unfolding check_shapes_def check_static_has_dim_equals_def
      check_static_has_rank_greater_than_def compare_batch_dimensions_def
      compare_dimensions_def d
    unfolding s get_dim_last
    using assms(3)
    by (simp add: get_dim_penult batch_dimensions_snoc2)
qed


lemma compute_alpha_eq:
  assumes bc: "broadcast_shape A B = Some C"
  shows "compute_alpha (mk (A @ [N, 1]) fs) (mk (B @ [N, 1]) gd)
         = Inr (mk (C @ [N]) (\<lambda>idx. 1 - exp (- fs (bproj A (butlast idx) @ [last idx, 0])
                                             * gd (bproj B (butlast idx) @ [last idx, 0]))))"
proof -
  have bc': "broadcast_shape (A @ [N, 1]) (B @ [N, 1]) = Some ((C @ [N]) @ [1])"
    using broadcast_shape_append [OF bc, of "[N, 1]" "[N, 1]"]
    by (simp add: dims_compatible_def broadcast_dim_def)
  have lc: "length C = max (length A) (length B)" using bc by (rule broadcast_shape_length)
  have 1: "tf_neg (mk (A @ [N, 1]) fs) = mk (A @ [N, 1]) (\<lambda>idx. - fs idx)"
    by (simp only: tf_neg_def map_tensor_mk)
  have 2: "scalar_sub 1 (tf_exp (mk sh h)) = mk sh (\<lambda>idx. 1 - exp (h idx))" for sh h
    by (simp only: scalar_sub_def tf_exp_def map_tensor_mk)
  have 3: "mk (C @ [N]) (\<lambda>idx. 1 - exp (- fs (bproj (A @ [N, 1]) (idx @ [0]))
                                          * gd (bproj (B @ [N, 1]) (idx @ [0]))))
           = mk (C @ [N]) (\<lambda>idx. 1 - exp (- fs (bproj A (butlast idx) @ [last idx, 0])
                                             * gd (bproj B (butlast idx) @ [last idx, 0])))"
  proof (rule mk_cong)
    fix idx assume "in_range (C @ [N]) idx"
    then obtain b i where idx: "idx = b @ [i]" and b: "in_range C b" and i: "i < N"
      by (auto simp: in_range_snoc)
    have lb: "length A \<le> length b" "length B \<le> length b"
      using in_range_length [OF b] lc by simp_all
    show "1 - exp (- fs (bproj (A @ [N, 1]) (idx @ [0])) * gd (bproj (B @ [N, 1]) (idx @ [0])))
          = 1 - exp (- fs (bproj A (butlast idx) @ [last idx, 0])
                     * gd (bproj B (butlast idx) @ [last idx, 0]))"
      using lb i by (simp add: idx bproj_snoc2)
  qed
  show ?thesis
    unfolding compute_alpha_def 1 tf_mul_mk [OF bc'] and_then_Inr 2 tf_squeeze_last_mk 3 ..
qed

lemma compute_transmittance_eq:
  "compute_transmittance (mk (C @ [N]) a)
   = Inr (mk (C @ [N]) (\<lambda>idx. \<Prod>j<last idx. (1 - a (butlast idx @ [j]) + epsilon)))"
  unfolding compute_transmittance_def scalar_sub_def add_scalar_def
  by (simp add: map_tensor_mk tf_cumprod_exclusive_last_mk prod_list_upt)

lemma tf_mul_same:
  "tf_mul (mk sh f) (mk sh g) = Inr (mk sh (\<lambda>idx. f idx * g idx))"
  by (auto simp: tf_mul_mk [OF broadcast_shape_refl] bproj_in_range intro!: mk_cong)

lemma weighted_rgb_eq:
  assumes bc: "broadcast_shape A B = Some C"
  shows "tf_mul (tf_expand_dims_last (mk (C @ [N]) w)) (mk (A @ [N, 3]) f)
         = Inr (mk (C @ [N, 3]) (\<lambda>idx. w (butlast idx) * f (bproj A (butlast (butlast idx)) @ [last (butlast idx), last idx])))"
proof -
  have bc': "broadcast_shape (C @ [N, 1]) (A @ [N, 3]) = Some (C @ [N, 3])"
    using broadcast_shape_append [OF broadcast_shape_absorb [OF bc], of "[N, 1]" "[N, 3]"]
    by (simp add: dims_compatible_def broadcast_dim_def)
  have lc: "length C = max (length A) (length B)" using bc by (rule broadcast_shape_length)
  have r: "in_range (C @ [N, 3]) idx \<longleftrightarrow>
           (\<exists>b i c. idx = b @ [i, c] \<and> in_range C b \<and> i < N \<and> c < 3)" for idx
    using in_range_snoc [of "C @ [N]" 3 idx] by (auto simp: in_range_snoc)
  have e: "tf_expand_dims_last (mk (C @ [N]) w) = mk (C @ [N, 1]) (\<lambda>idx. w (butlast idx))"
    by (simp add: tf_expand_dims_last_mk)
  have "mk (C @ [N, 3]) (\<lambda>idx. w (butlast (bproj (C @ [N, 1]) idx)) * f (bproj (A @ [N, 3]) idx))
        = mk (C @ [N, 3]) (\<lambda>idx. w (butlast idx)
              * f (bproj A (butlast (butlast idx)) @ [last (butlast idx), last idx]))"
  proof (rule mk_cong)
    fix idx assume "in_range (C @ [N, 3]) idx"
    then obtain b i c where idx: "idx = b @ [i, c]" and b: "in_range C b" and i: "i < N"
      and c: "c < 3"
      by (auto simp: r)
    have lb: "length A \<le> length b" "length C \<le> length b"
      using in_range_length [OF b] lc by simp_all
    show "w (butlast (bproj (C @ [N, 1]) idx)) * f (bproj (A @ [N, 3]) idx)
          = w (butlast idx) * f (bproj A (butlast (butlast idx)) @ [last (butlast idx), last idx])"
      using lb i b by (simp add: idx bproj_snoc2 butlast_append bproj_in_range)
  qed
  then show ?thesis
    unfolding e tf_mul_mk [OF bc'] by simp
qed


lemma compute_radiance_eq:
  assumes ss: "shape samples = A @ [N, 4]" and sd: "shape distances = B @ [N]"
    and bc: "broadcast_shape A B = Some C"
  shows "compute_radiance samples distances = Inr
    (mk (C @ [3]) (\<lambda>idx. spec_color N (ray_sigma samples A (butlast idx))
        (ray_dist distances B (butlast idx)) (ray_rgb samples A (butlast idx)) (last idx)),
     mk (C @ [1]) (\<lambda>idx. spec_opacity N (ray_sigma samples A (butlast idx))
        (ray_dist distances B (butlast idx))),
     mk (C @ [N]) (\<lambda>idx. spec_weight (ray_sigma samples A (butlast idx))
        (ray_dist distances B (butlast idx)) (last idx)))"
proof -
  let ?sg = "\<lambda>idx. ray_sigma samples A (butlast idx)"
  let ?dl = "\<lambda>idx. ray_dist distances B (butlast idx)"
  let ?a = "\<lambda>idx. spec_alpha (?sg idx) (?dl idx) (last idx)"
  let ?T = "\<lambda>idx. spec_T (?sg idx) (?dl idx) (last idx)"
  let ?w = "\<lambda>idx. spec_weight (?sg idx) (?dl idx) (last idx)"
  let ?fs = "\<lambda>idx. item samples (butlast idx @ [last idx + 3])"
  let ?gd = "\<lambda>idx. item distances (butlast idx)"
  have d: "tf_expand_dims_last distances = mk (B @ [N, 1]) ?gd"
    by (simp add: tf_expand_dims_last_def sd)
  have chk: "check_shapes samples (tf_expand_dims_last distances) = Inr ()"
    using ss sd bc by (rule check_shapes_ok)
  have split: "tf_split_3_1 samples = Inr (mk (A @ [N, 3]) (item samples), mk (A @ [N, 1]) ?fs)"
    by (simp add: tf_split_3_1_def ss butlast_append)
  have alpha: "compute_alpha (mk (A @ [N, 1]) ?fs) (mk (B @ [N, 1]) ?gd) = Inr (mk (C @ [N]) ?a)"
    unfolding compute_alpha_eq [OF bc]
    by (simp add: spec_alpha_def ray_sigma_def ray_dist_def butlast_append)
  have T: "compute_transmittance (mk (C @ [N]) ?a) = Inr (mk (C @ [N]) ?T)"
    unfolding compute_transmittance_eq
    by (simp add: spec_T_def epsilon_def)
  have w: "tf_mul (mk (C @ [N]) ?a) (mk (C @ [N]) ?T) = Inr (mk (C @ [N]) ?w)"
    unfolding tf_mul_same by (simp add: spec_weight_def)
  have wr: "tf_mul (tf_expand_dims_last (mk (C @ [N]) ?w)) (mk (A @ [N, 3]) (item samples))
    = Inr (mk (C @ [N, 3]) (\<lambda>idx. ?w (butlast idx)
        * item samples (bproj A (butlast (butlast idx)) @ [last (butlast idx), last idx])))"
    by (rule weighted_rgb_eq [OF bc])
  have col: "tf_reduce_sum_penult (mk (C @ [N, 3]) (\<lambda>idx. ?w (butlast idx)
        * item samples (bproj A (butlast (butlast idx)) @ [last (butlast idx), last idx])))
    = Inr (mk (C @ [3]) (\<lambda>idx. spec_color N (?sg idx) (?dl idx)
        (ray_rgb samples A (butlast idx)) (last idx)))"
    unfolding tf_reduce_sum_penult_mk
    by (simp add: sum_list_upt spec_color_def ray_rgb_def butlast_append)
  have acc: "tf_reduce_sum_last (mk (C @ [N]) ?w)
    = Inr (mk C (\<lambda>idx. spec_opacity N (ray_sigma samples A idx) (ray_dist distances B idx)))"
    unfolding tf_reduce_sum_last_mk
    by (simp add: sum_list_upt spec_opacity_def)
  show ?thesis
    unfolding compute_radiance_def Let_def chk and_then_Inr split prod.case
    unfolding d alpha and_then_Inr T w wr col acc
    unfolding tf_expand_dims_last_mk ..
qed

section \<open>The compositing formulas on one ray\<close>

lemma spec_alpha_less_1: "spec_alpha sigma delta i < 1"
  by (simp add: spec_alpha_def)

lemma spec_factor_pos: "0 < 1 - spec_alpha sigma delta j + 1 / 10 ^ 10"
proof -
  have "0 < exp (- sigma j * delta j)" by simp
  then show ?thesis by (simp add: spec_alpha_def add_pos_pos)
qed

lemma spec_T_pos: "0 < spec_T sigma delta i"
  unfolding spec_T_def by (intro prod_pos ballI spec_factor_pos)

lemma spec_T_0 [simp]: "spec_T sigma delta 0 = 1"
  by (simp add: spec_T_def)

lemma spec_T_Suc:
  "spec_T sigma delta (Suc i) = spec_T sigma delta i * (1 - spec_alpha sigma delta i + epsilon)"
  by (simp add: spec_T_def epsilon_def)

lemma spec_opacity_0 [simp]: "spec_opacity 0 sigma delta = 0"
  by (simp add: spec_opacity_def)

lemma spec_opacity_Suc:
  "spec_opacity (Suc n) sigma delta = spec_opacity n sigma delta + spec_weight sigma delta n"
  by (simp add: spec_opacity_def)

lemma epsilon_pos: "0 < epsilon"
  by (simp add: epsilon_def)

lemma spec_alpha_nonneg:
  assumes "0 \<le> sigma i" "0 \<le> delta i"
  shows "0 \<le> spec_alpha sigma delta i"
proof -
  have "0 \<le> sigma i * delta i" using assms by simp
  then have "exp (- (sigma i * delta i)) \<le> 1" by simp
  then show ?thesis by (simp add: spec_alpha_def)
qed

lemma spec_T_le:
  assumes "\<And>j. j < i \<Longrightarrow> 0 \<le> sigma j \<and> 0 \<le> delta j"
  shows "spec_T sigma delta i \<le> (1 + epsilon) ^ i"
  using assms
proof (induction i)
  case 0
  then show ?case by simp
next
  case (Suc i)
  have ih: "spec_T sigma delta i \<le> (1 + epsilon) ^ i" using Suc by simp
  have a: "0 \<le> spec_alpha sigma delta i" using Suc.prems [of i] by (simp add: spec_alpha_nonneg)
  have f: "1 - spec_alpha sigma delta i + epsilon \<le> 1 + epsilon" using a by simp
  have f0: "0 \<le> 1 - spec_alpha sigma delta i + epsilon"
    using spec_factor_pos [of sigma delta i] by (simp add: epsilon_def)
  have "spec_T sigma delta i * (1 - spec_alpha sigma delta i + epsilon)
        \<le> (1 + epsilon) ^ i * (1 + epsilon)"
    using ih f f0 spec_T_pos [of sigma delta i] by (intro mult_mono) simp_all
  then show ?case by (simp add: spec_T_Suc mult.commute)
qed

lemma spec_weight_nonneg:
  assumes "0 \<le> sigma i" "0 \<le> delta i"
  shows "0 \<le> spec_weight sigma delta i"
  unfolding spec_weight_def
  using spec_alpha_nonneg [of sigma i delta] assms spec_T_pos [of sigma delta i] by simp

lemma spec_weight_le:
  assumes "\<And>j. j \<le> i \<Longrightarrow> 0 \<le> sigma j \<and> 0 \<le> delta j"
  shows "spec_weight sigma delta i \<le> (1 + epsilon) ^ i"
proof -
  have T: "spec_T sigma delta i \<le> (1 + epsilon) ^ i"
    using assms by (intro spec_T_le) simp
  have a: "0 \<le> spec_alpha sigma delta i" using assms [of i] by (simp add: spec_alpha_nonneg)
  have "spec_alpha sigma delta i * spec_T sigma delta i \<le> 1 * (1 + epsilon) ^ i"
    using T a spec_alpha_less_1 [of sigma delta i] spec_T_pos [of sigma delta i]
    by (intro mult_mono) simp_all
  then show ?thesis by (simp add: spec_weight_def)
qed

lemma spec_opacity_nonneg:
  assumes "\<And>j. j < n \<Longrightarrow> 0 \<le> sigma j \<and> 0 \<le> delta j"
  shows "0 \<le> spec_opacity n sigma delta"
  unfolding spec_opacity_def using assms by (intro sum_nonneg spec_weight_nonneg) simp_all

text \<open>The opacity and the remaining transmittance: each sample adds \<open>epsilon * T_i\<close> to
  their sum.\<close>

lemma spec_opacity_plus_T:
  "spec_opacity (Suc n) sigma delta + spec_T sigma delta (Suc n)
   = spec_opacity n sigma delta + spec_T sigma delta n * (1 + epsilon)"
  by (simp add: spec_opacity_Suc spec_T_Suc spec_weight_def algebra_simps)

lemma spec_opacity_plus_T_le:
  assumes "\<And>j. j < n \<Longrightarrow> 0 \<le> sigma j \<and> 0 \<le> delta j"
  shows "spec_opacity n sigma delta + spec_T sigma delta n \<le> (1 + epsilon) ^ n"
  using assms
proof (induction n)
  case 0
  then show ?case by simp
next
  case (Suc n)
  have ih: "spec_opacity n sigma delta + spec_T sigma delta n \<le> (1 + epsilon) ^ n"
    using Suc by simp
  have o: "0 \<le> spec_opacity n sigma delta"
    using Suc.prems by (intro spec_opacity_nonneg) simp
  have "spec_opacity n sigma delta + spec_T sigma delta n * (1 + epsilon)
        \<le> (spec_opacity n sigma delta + spec_T sigma delta n) * (1 + epsilon)"
    using o epsilon_pos by (simp add: algebra_simps)
  also have "\<dots> \<le> (1 + epsilon) ^ n * (1 + epsilon)"
    using ih epsilon_pos by (intro mult_right_mono) simp_all
  finally show ?case by (simp add: spec_opacity_plus_T mult.commute)
qed

text \<open>The last sample adds less than the remaining transmittance, so \<open>N\<close> samples
  accumulate less than \<open>(1 + epsilon) ^ (N - 1)\<close>: less than 1 for one sample, less than
  \<open>1 + epsilon\<close> for two.\<close>

lemma spec_opacity_less:
  assumes "\<And>j. j < n \<Longrightarrow> 0 \<le> sigma j \<and> 0 \<le> delta j"
  shows "spec_opacity n sigma delta < (1 + epsilon) ^ (n - 1)"
proof (cases n)
  case 0
  then show ?thesis by simp
next
  case (Suc m)
  have le: "spec_opacity m sigma delta + spec_T sigma delta m \<le> (1 + epsilon) ^ m"
    using assms Suc by (intro spec_opacity_plus_T_le) simp
  have "spec_alpha sigma delta m * spec_T sigma delta m < 1 * spec_T sigma delta m"
    using spec_alpha_less_1 [of sigma delta m] spec_T_pos [of sigma delta m]
    by (intro mult_strict_right_mono) simp_all
  then have "spec_weight sigma delta m < spec_T sigma delta m"
    by (simp add: spec_weight_def)
  then have "spec_opacity (Suc m) sigma delta < (1 + epsilon) ^ m"
    using le by (simp add: spec_opacity_Suc)
  then show ?thesis using Suc by simp
qed

lemma spec_weight_zero_density:
  "sigma i = 0 \<Longrightarrow> spec_weight sigma delta i = 0"
  by (simp add: spec_weight_def spec_alpha_def)

lemma spec_opacity_zero_density:
  "(\<And>i. i < n \<Longrightarrow> sigma i = 0) \<Longrightarrow> spec_opacity n sigma delta = 0"
  by (simp add: spec_opacity_def spec_weight_zero_density)

lemma spec_color_zero_density:
  "(\<And>i. i < n \<Longrightarrow> sigma i = 0) \<Longrightarrow> spec_color n sigma delta rgb c = 0"
  by (simp add: spec_color_def spec_weight_zero_density)

section \<open>Elements of the outputs\<close>

lemma radiance_alpha_eq:
  assumes ss: "shape samples = A @ [N, 4]" and sd: "shape distances = B @ [N]"
    and bc: "broadcast_shape A B = Some C"
  shows "radiance_alpha samples distances = Inr
     (mk (C @ [N]) (\<lambda>idx. spec_alpha (ray_sigma samples A (butlast idx))
        (ray_dist distances B (butlast idx)) (last idx)))"
proof -
  let ?fs = "\<lambda>idx. item samples (butlast idx @ [last idx + 3])"
  let ?gd = "\<lambda>idx. item distances (butlast idx)"
  have d: "tf_expand_dims_last distances = mk (B @ [N, 1]) ?gd"
    by (simp add: tf_expand_dims_last_def sd)
  have chk: "check_shapes samples (tf_expand_dims_last distances) = Inr ()"
    using ss sd bc by (rule check_shapes_ok)
  have split: "tf_split_3_1 samples = Inr (mk (A @ [N, 3]) (item samples), mk (A @ [N, 1]) ?fs)"
    by (simp add: tf_split_3_1_def ss butlast_append)
  show ?thesis
    unfolding radiance_alpha_def Let_def chk and_then_Inr split prod.case
    unfolding d compute_alpha_eq [OF bc]
    by (simp add: spec_alpha_def ray_sigma_def ray_dist_def butlast_append)
qed

lemma ray_sigma_bproj:
  assumes bc: "broadcast_shape A B = Some C" and b: "in_range C b"
    and P: "\<And>a i. in_range A a \<Longrightarrow> i < N \<Longrightarrow> P (item samples (a @ [i, 3]))"
    and i: "i < N"
  shows "P (ray_sigma samples A b i)"
  unfolding ray_sigma_def using P [OF bproj_left_in_range [OF bc b] i] .

lemma ray_dist_bproj:
  assumes bc: "broadcast_shape A B = Some C" and b: "in_range C b"
    and P: "\<And>a i. in_range B a \<Longrightarrow> i < N \<Longrightarrow> P (item distances (a @ [i]))"
    and i: "i < N"
  shows "P (ray_dist distances B b i)"
  unfolding ray_dist_def using P [OF bproj_right_in_range [OF bc b] i] .

lemma zero_density_outputs:
  assumes ss: "shape samples = A @ [N, 4]" and sd: "shape distances = B @ [N]"
    and bc: "broadcast_shape A B = Some C"
    and zero: "\<And>a i. in_range A a \<Longrightarrow> i < N \<Longrightarrow> item samples (a @ [i, 3]) = 0"
  shows "compute_radiance samples distances
         = Inr (mk (C @ [3]) (\<lambda>idx. 0), mk (C @ [1]) (\<lambda>idx. 0), mk (C @ [N]) (\<lambda>idx. 0))"
proof -
  have z: "ray_sigma samples A b i = 0" if "in_range C b" "i < N" for b i
    using ray_sigma_bproj [OF bc that(1), of N "\<lambda>x. x = 0" samples i] zero that(2) by simp
  have c: "mk (C @ [3]) (\<lambda>idx. spec_color N (ray_sigma samples A (butlast idx))
        (ray_dist distances B (butlast idx)) (ray_rgb samples A (butlast idx)) (last idx))
      = mk (C @ [3]) (\<lambda>idx. 0)"
    by (rule mk_cong) (auto simp: in_range_snoc z intro!: spec_color_zero_density)
  have o: "mk (C @ [1]) (\<lambda>idx. spec_opacity N (ray_sigma samples A (butlast idx))
        (ray_dist distances B (butlast idx))) = mk (C @ [1]) (\<lambda>idx. 0)"
    by (rule mk_cong) (auto simp: in_range_snoc z intro!: spec_opacity_zero_density)
  have w: "mk (C @ [N]) (\<lambda>idx. spec_weight (ray_sigma samples A (butlast idx))
        (ray_dist distances B (butlast idx)) (last idx)) = mk (C @ [N]) (\<lambda>idx. 0)"
    by (rule mk_cong) (auto simp: in_range_snoc z intro!: spec_weight_zero_density)
  show ?thesis
    unfolding compute_radiance_eq [OF ss sd bc] c o w ..
qed

lemma outputs_items:
  assumes ss: "shape samples = A @ [N, 4]" and sd: "shape distances = B @ [N]"
    and bc: "broadcast_shape A B = Some C"
  shows "\<not> isl (compute_radiance samples distances)"
    and "shape (color_of (compute_radiance samples distances)) = C @ [3]"
    and "shape (opacity_of (compute_radiance samples distances)) = C @ [1]"
    and "shape (weights_of (compute_radiance samples distances)) = C @ [N]"
    and "in_range C b \<Longrightarrow> c < 3 \<Longrightarrow>
         item (color_of (compute_radiance samples distances)) (b @ [c])
         = spec_color N (ray_sigma samples A b) (ray_dist distances B b) (ray_rgb samples A b) c"
    and "in_range C b \<Longrightarrow>
         item (opacity_of (compute_radiance samples distances)) (b @ [0])
         = spec_opacity N (ray_sigma samples A b) (ray_dist distances B b)"
    and "in_range C b \<Longrightarrow> i < N \<Longrightarrow>
         item (weights_of (compute_radiance samples distances)) (b @ [i])
         = spec_weight (ray_sigma samples A b) (ray_dist distances B b) i"
  unfolding compute_radiance_eq [OF ss sd bc] color_of_def opacity_of_def weights_of_def
  by simp_all

lemma exp_minus_le: "0 \<le> x \<Longrightarrow> exp (- x) \<le> 1 / (1 + x)" for x :: real
proof -
  assume x: "0 \<le> x"
  have "1 + x \<le> exp x" by simp
  then have "inverse (exp x) \<le> inverse (1 + x)"
    using x by (intro le_imp_inverse_le) simp_all
  then show ?thesis by (simp add: exp_minus inverse_eq_divide)
qed

lemma opaque_alpha: "1 < (1 - exp (- (10 ^ 11))) * (1 + epsilon)"
proof -
  have e: "exp (- (10 ^ 11)) \<le> 1 / (1 + 10 ^ 11 :: real)"
    using exp_minus_le [of "10 ^ 11"] by simp
  have "(1::real) < (1 - 1 / (1 + 10 ^ 11)) * (1 + 1 / 10 ^ 10)" by simp
  also have "\<dots> \<le> (1 - exp (- (10 ^ 11))) * (1 + 1 / 10 ^ 10)"
    using e by (intro mult_right_mono) simp_all
  finally show ?thesis by (simp add: epsilon_def)
qed

lemma bound_ray:
  "ray_sigma bound_samples [] [] 0 = 0" "ray_sigma bound_samples [] [] (Suc 0) = 0"
  "ray_sigma bound_samples [] [] 2 = 10 ^ 11"
  "ray_dist bound_distances [] [] 0 = 1" "ray_dist bound_distances [] [] (Suc 0) = 1"
  "ray_dist bound_distances [] [] 2 = 1"
  by (simp_all add: ray_sigma_def ray_dist_def bproj_def item_def bound_samples_def
      bound_distances_def)

lemma spec_T_2:
  "spec_T sigma delta 2
   = (1 - spec_alpha sigma delta 0 + epsilon) * (1 - spec_alpha sigma delta (Suc 0) + epsilon)"
  unfolding numeral_2_eq_2 by (simp add: spec_T_Suc)

lemma bound_weights:
  "spec_weight (ray_sigma bound_samples [] []) (ray_dist bound_distances [] []) 0 = 0"
  "spec_weight (ray_sigma bound_samples [] []) (ray_dist bound_distances [] []) (Suc 0) = 0"
  "spec_weight (ray_sigma bound_samples [] []) (ray_dist bound_distances [] []) 2
   = (1 - exp (- (10 ^ 11))) * (1 + epsilon) * (1 + epsilon)"
  by (simp_all add: spec_weight_def spec_alpha_def spec_T_Suc spec_T_2 bound_ray)

lemma example_nonneg:
  "in_range [] a \<Longrightarrow> i < 2 \<Longrightarrow> 0 \<le> item example_samples (a @ [i, 3])"
  "in_range [] a \<Longrightarrow> i < 2 \<Longrightarrow> 0 \<le> item example_distances (a @ [i])"
  by (auto simp: less_2_cases_iff item_def example_samples_def example_distances_def)

lemma example_shapes:
  "shape example_samples = [] @ [2, 4]" "shape example_distances = [] @ [2]"
  by (simp_all add: example_samples_def example_distances_def)

text \<open>The outputs of a call on inputs of accepted shapes are well-formed tensors.\<close>

lemma outputs_wf:
  assumes "shape samples = A @ [N, 4]" and "shape distances = B @ [N]"
    and "broadcast_shape A B = Some C"
  shows "wf_tensor (color_of (compute_radiance samples distances))"
    and "wf_tensor (opacity_of (compute_radiance samples distances))"
    and "wf_tensor (weights_of (compute_radiance samples distances))"
  unfolding compute_radiance_eq [OF assms] color_of_def opacity_of_def weights_of_def
  by simp_all

section \<open>The end-to-end example\<close>

lemma exp_minus_1_bounds:
  "(0.367879 :: real) < exp (- 1)" "exp (- 1) < (0.367881 :: real)"
proof -
  obtain t :: real where t: "\<bar>t\<bar> \<le> \<bar>- 1\<bar>"
    and e: "exp (- 1) = (\<Sum>m<10. ((- 1) ^ m) / fact m) + (exp t / fact 10) * (- 1) ^ 10"
    using Maclaurin_exp_le [of "- 1" 10] by blast
  have s: "(\<Sum>m<10. ((- 1 :: real) ^ m) / fact m) = 16687 / 45360"
    by (simp add: eval_nat_numeral)
  have "t \<le> 1" using t by simp
  then have "exp t \<le> exp 1" by simp
  then have t3: "exp t \<le> 3" using exp_le by linarith
  have t0: "0 < exp t" by simp
  have f: "fact 10 = (3628800 :: real)" by (simp add: eval_nat_numeral)
  have e': "exp (- 1) = 16687 / 45360 + exp t / 3628800"
    unfolding e s f by simp
  have r0: "0 < exp t / 3628800" by simp
  have r3: "exp t / 3628800 \<le> 3 / 3628800" using t3 by (intro divide_right_mono) simp_all
  have lo: "(0.367879 :: real) \<le> 16687 / 45360" by simp
  have hi: "(16687 / 45360 + 3 / 3628800 :: real) < 0.367881" by simp
  show "(0.367879 :: real) < exp (- 1)" using r0 lo unfolding e' by linarith
  show "exp (- 1) < (0.367881 :: real)" using r3 hi unfolding e' by linarith
qed

lemma example_ray:
  "ray_sigma example_samples [] [] 0 = 1" "ray_sigma example_samples [] [] (Suc 0) = 1"
  "ray_dist example_distances [] [] 0 = 1" "ray_dist example_distances [] [] (Suc 0) = 1"
  "ray_rgb example_samples [] [] 0 0 = 1" "ray_rgb example_samples [] [] 0 (Suc 0) = 0"
  "ray_rgb example_samples [] [] 0 2 = 0"
  "ray_rgb example_samples [] [] (Suc 0) 0 = 0" "ray_rgb example_samples [] [] (Suc 0) (Suc 0) = 1"
  "ray_rgb example_samples [] [] (Suc 0) 2 = 0"
  by (simp_all add: ray_sigma_def ray_dist_def ray_rgb_def bproj_def item_def
      example_samples_def example_distances_def)

lemma example_alpha:
  "spec_alpha (ray_sigma example_samples [] []) (ray_dist example_distances [] []) 0
   = 1 - exp (- 1)"
  "spec_alpha (ray_sigma example_samples [] []) (ray_dist example_distances [] []) (Suc 0)
   = 1 - exp (- 1)"
  by (simp_all add: spec_alpha_def example_ray)

lemma example_weights:
  "spec_weight (ray_sigma example_samples [] []) (ray_dist example_distances [] []) 0
   = 1 - exp (- 1)"
  "spec_weight (ray_sigma example_samples [] []) (ray_dist example_distances [] []) (Suc 0)
   = (1 - exp (- 1)) * (exp (- 1) + epsilon)"
  by (simp_all add: spec_weight_def example_alpha spec_T_Suc)

lemma example_opacity:
  "spec_opacity 2 (ray_sigma example_samples [] []) (ray_dist example_distances [] [])
   = (1 - exp (- 1)) + (1 - exp (- 1)) * (exp (- 1) + epsilon)"
  unfolding numeral_2_eq_2 spec_opacity_Suc by (simp add: example_weights)

lemma example_color:
  "spec_color 2 (ray_sigma example_samples [] []) (ray_dist example_distances [] [])
     (ray_rgb example_samples [] []) 0 = 1 - exp (- 1)"
  "spec_color 2 (ray_sigma example_samples [] []) (ray_dist example_distances [] [])
     (ray_rgb example_samples [] []) (Suc 0) = (1 - exp (- 1)) * (exp (- 1) + epsilon)"
  "spec_color 2 (ray_sigma example_samples [] []) (ray_dist example_distances [] [])
     (ray_rgb example_samples [] []) 2 = 0"
  unfolding spec_color_def numeral_2_eq_2 sum.lessThan_Suc
  by (simp_all add: example_weights example_ray flip: numeral_2_eq_2)

lemma second_weight_bounds:
  "(0.2325 :: real) < (1 - exp (- 1)) * (exp (- 1) + epsilon)"
  "(1 - exp (- 1)) * (exp (- 1) + epsilon) < (0.2326 :: real)"
proof -
  have a: "(0.632119 :: real) < 1 - exp (- 1)" "1 - exp (- 1) < (0.632121 :: real)"
    using exp_minus_1_bounds by simp_all
  have e: "(0.367879 :: real) < exp (- 1) + epsilon" "exp (- 1) + epsilon < (0.367882 :: real)"
    using exp_minus_1_bounds by (simp_all add: epsilon_def)
  have "(0.632119 :: real) * 0.367879 < (1 - exp (- 1)) * (exp (- 1) + epsilon)"
    using a(1) e(1) by (intro mult_strict_mono) simp_all
  then show "(0.2325 :: real) < (1 - exp (- 1)) * (exp (- 1) + epsilon)" by simp
  have "(1 - exp (- 1)) * (exp (- 1) + epsilon) < (0.632121 :: real) * 0.367882"
    using a e by (intro mult_strict_mono) simp_all
  then show "(1 - exp (- 1)) * (exp (- 1) + epsilon) < (0.2326 :: real)" by simp
qed

lemma opacity_approx:
  fixes e w :: real
  assumes "0.2325 < w" "w < 0.2326" "0.367879 < e" "e < 0.367881"
  shows "\<bar>1 - e + w - 0.865\<bar> < 0.0005"
  using assms by (simp add: abs_less_iff)

section \<open>Splitting a ray\<close>

lemma spec_alpha_shift:
  "spec_alpha (\<lambda>k. sigma (n + k)) (\<lambda>k. delta (n + k)) m = spec_alpha sigma delta (n + m)"
  by (simp add: spec_alpha_def)

lemma spec_T_split:
  "spec_T sigma delta (n + m)
   = spec_T sigma delta n * spec_T (\<lambda>k. sigma (n + k)) (\<lambda>k. delta (n + k)) m"
  by (induction m) (simp_all add: spec_T_Suc spec_alpha_shift)

lemma spec_opacity_split:
  "spec_opacity (n + m) sigma delta
   = spec_opacity n sigma delta
     + spec_T sigma delta n * spec_opacity m (\<lambda>k. sigma (n + k)) (\<lambda>k. delta (n + k))"
proof (induction m)
  case 0
  then show ?case by simp
next
  case (Suc m)
  have w: "spec_weight sigma delta (n + m)
        = spec_T sigma delta n * spec_weight (\<lambda>k. sigma (n + k)) (\<lambda>k. delta (n + k)) m"
    by (simp add: spec_weight_def spec_T_split spec_alpha_shift)
  show ?case
    by (simp add: spec_opacity_Suc Suc.IH w distrib_left)
qed

lemma spec_alpha_cong:
  "sigma i = sigma' i \<Longrightarrow> delta i = delta' i \<Longrightarrow>
   spec_alpha sigma delta i = spec_alpha sigma' delta' i"
  by (simp add: spec_alpha_def)

lemma spec_T_cong:
  assumes "\<And>j. j < i \<Longrightarrow> sigma j = sigma' j \<and> delta j = delta' j"
  shows "spec_T sigma delta i = spec_T sigma' delta' i"
  unfolding spec_T_def using assms
  by (intro prod.cong refl) (simp add: spec_alpha_def)

lemma spec_opacity_cong:
  assumes "\<And>j. j < n \<Longrightarrow> sigma j = sigma' j \<and> delta j = delta' j"
  shows "spec_opacity n sigma delta = spec_opacity n sigma' delta'"
proof -
  have "spec_weight sigma delta i = spec_weight sigma' delta' i" if "i < n" for i
  proof -
    have "spec_T sigma delta i = spec_T sigma' delta' i"
      using assms that by (intro spec_T_cong) simp
    moreover have "spec_alpha sigma delta i = spec_alpha sigma' delta' i"
      using assms [OF that] by (intro spec_alpha_cong) simp_all
    ultimately show ?thesis by (simp add: spec_weight_def)
  qed
  then show ?thesis unfolding spec_opacity_def by (intro sum.cong refl) simp
qed

text \<open>The opacity of a ray, split at sample \<open>i\<close>: the samples before \<open>i\<close>, sample \<open>i\<close>
  itself, and the opacity accumulated by the samples after \<open>i\<close> on their own.\<close>

lemma spec_opacity_at:
  assumes "i < N"
  shows "spec_opacity N sigma delta
         = spec_opacity i sigma delta
           + spec_T sigma delta i
             * (spec_alpha sigma delta i
                + (1 - spec_alpha sigma delta i + epsilon)
                  * spec_opacity (N - Suc i) (\<lambda>k. sigma (Suc i + k)) (\<lambda>k. delta (Suc i + k)))"
proof -
  have N: "N = Suc i + (N - Suc i)" using assms by simp
  have "spec_opacity N sigma delta = spec_opacity (Suc i + (N - Suc i)) sigma delta"
    using N by simp
  also have "\<dots> = spec_opacity (Suc i) sigma delta
      + spec_T sigma delta (Suc i)
        * spec_opacity (N - Suc i) (\<lambda>k. sigma (Suc i + k)) (\<lambda>k. delta (Suc i + k))"
    by (rule spec_opacity_split)
  finally show ?thesis
    by (simp add: spec_opacity_Suc spec_T_Suc spec_weight_def algebra_simps)
qed

lemma spec_opacity_mono_sigma:
  assumes i: "i < N"
    and same: "\<And>j. j < N \<Longrightarrow> j \<noteq> i \<Longrightarrow> sigma' j = sigma j"
    and le: "sigma i \<le> sigma' i"
    and d: "0 \<le> delta i"
    and tail: "spec_opacity (N - Suc i) (\<lambda>k. sigma (Suc i + k)) (\<lambda>k. delta (Suc i + k)) \<le> 1"
  shows "spec_opacity N sigma delta \<le> spec_opacity N sigma' delta"
proof -
  let ?tail = "spec_opacity (N - Suc i) (\<lambda>k. sigma (Suc i + k)) (\<lambda>k. delta (Suc i + k))"
  let ?a = "spec_alpha sigma delta i" and ?a' = "spec_alpha sigma' delta i"
  have before: "spec_opacity i sigma' delta = spec_opacity i sigma delta"
    using same i by (intro spec_opacity_cong) simp
  have T: "spec_T sigma' delta i = spec_T sigma delta i"
    using same i by (intro spec_T_cong) simp
  have after: "spec_opacity (N - Suc i) (\<lambda>k. sigma' (Suc i + k)) (\<lambda>k. delta (Suc i + k)) = ?tail"
    using same i by (intro spec_opacity_cong) simp
  have "sigma i * delta i \<le> sigma' i * delta i" using le d by (rule mult_right_mono)
  then have a: "?a \<le> ?a'" by (simp add: spec_alpha_def)
  have "?a + (1 - ?a + epsilon) * ?tail = (1 + epsilon) * ?tail + ?a * (1 - ?tail)"
    by (simp add: algebra_simps)
  also have "\<dots> \<le> (1 + epsilon) * ?tail + ?a' * (1 - ?tail)"
    using a tail by (intro add_left_mono mult_right_mono) simp_all
  also have "\<dots> = ?a' + (1 - ?a' + epsilon) * ?tail"
    by (simp add: algebra_simps)
  finally have "spec_T sigma delta i * (?a + (1 - ?a + epsilon) * ?tail)
                \<le> spec_T sigma delta i * (?a' + (1 - ?a' + epsilon) * ?tail)"
    using spec_T_pos [of sigma delta i] by (intro mult_left_mono) simp_all
  then show ?thesis
    unfolding spec_opacity_at [OF i, of sigma delta] spec_opacity_at [OF i, of sigma' delta]
      before T after by simp
qed

lemma denser_same:
  assumes "in_range [] a" "j < 2" "c < 4" "j \<noteq> 1 \<or> c \<noteq> 3"
  shows "item denser_samples (a @ [j, c]) = item example_samples (a @ [j, c])"
proof -
  have a: "a = []" using assms(1) by simp
  have j: "j = 0 \<or> j = 1" using assms(2) by auto
  have c: "c = 0 \<or> c = 1 \<or> c = 2 \<or> c = 3" using assms(3) by auto
  show ?thesis
    using j c assms(4)
    by (auto simp: a item_def denser_samples_def example_samples_def)
qed

lemma raised_ray:
  "ray_sigma raised_samples [] [] 0 = 1" "ray_sigma raised_samples [] [] (Suc 0) = 0"
  "ray_sigma raised_samples [] [] 2 = 10 ^ 11"
  by (simp_all add: ray_sigma_def bproj_def item_def raised_samples_def)

lemma raised_weights:
  "spec_weight (ray_sigma raised_samples [] []) (ray_dist bound_distances [] []) 0
   = 1 - exp (- 1)"
  "spec_weight (ray_sigma raised_samples [] []) (ray_dist bound_distances [] []) (Suc 0) = 0"
  "spec_weight (ray_sigma raised_samples [] []) (ray_dist bound_distances [] []) 2
   = (1 - exp (- (10 ^ 11))) * ((exp (- 1) + epsilon) * (1 + epsilon))"
  by (simp_all add: spec_weight_def spec_alpha_def spec_T_Suc spec_T_2 raised_ray bound_ray)

lemma raised_opacity_less:
  fixes a X e :: real
  assumes "0 < a" "1 < X"
  shows "a + X * (1 - a + e) < X * (1 + e)"
proof -
  have "a * 1 < a * X" using assms by (intro mult_strict_left_mono) simp_all
  then show ?thesis by (simp add: algebra_simps)
qed

section \<open>Reordered samples\<close>

lemma shape_permute_samples [simp]: "shape (permute_samples p t) = shape t"
  by (simp add: permute_samples_def)

lemma shape_permute_distances [simp]: "shape (permute_distances p t) = shape t"
  by (simp add: permute_distances_def)

lemma item_permute_samples:
  assumes "shape t = A @ [N, 4]" "in_range A a" "i < N" "c < 4"
  shows "item (permute_samples p t) (a @ [i, c]) = item t (a @ [p i, c])"
  using assms by (simp add: permute_samples_def butlast_append)

lemma item_permute_distances:
  assumes "shape t = B @ [N]" "in_range B a" "i < N"
  shows "item (permute_distances p t) (a @ [i]) = item t (a @ [p i])"
  using assms by (simp add: permute_distances_def)

lemma bij_betw_lessThan_less:
  "bij_betw p {..<N} {..<N} \<Longrightarrow> i < N \<Longrightarrow> p i < N"
  by (auto simp: bij_betw_def)

lemma bij_betw_swap2: "bij_betw swap2 {..<2} {..<2}"
proof -
  have "swap2 ` {..<2} = {..<2}"
    by (auto simp: swap2_def image_iff lessThan_Suc numeral_2_eq_2)
  moreover have "inj_on swap2 {..<2}"
    by (auto simp: swap2_def inj_on_def)
  ultimately show ?thesis by (simp add: bij_betw_def)
qed

lemma zero_density_reordered:
  assumes ss: "shape samples = A @ [N, 4]" and sd: "shape distances = B @ [N]"
    and bc: "broadcast_shape A B = Some C"
    and p: "bij_betw p {..<N} {..<N}"
    and zero: "\<And>a i. in_range A a \<Longrightarrow> i < N \<Longrightarrow> item samples (a @ [i, 3]) = 0"
  shows "compute_radiance (permute_samples p samples) (permute_distances p distances)
         = compute_radiance samples distances"
proof -
  have ss': "shape (permute_samples p samples) = A @ [N, 4]" using ss by simp
  have sd': "shape (permute_distances p distances) = B @ [N]" using sd by simp
  have zero': "item (permute_samples p samples) (a @ [i, 3]) = 0"
    if "in_range A a" "i < N" for a i
    using item_permute_samples [OF ss that, of 3 p]
      zero [OF that(1) bij_betw_lessThan_less [OF p that(2)]] by simp
  have "compute_radiance samples distances
        = Inr (mk (C @ [3]) (\<lambda>idx. 0), mk (C @ [1]) (\<lambda>idx. 0), mk (C @ [N]) (\<lambda>idx. 0))"
    using ss sd bc zero by (rule zero_density_outputs)
  moreover have "compute_radiance (permute_samples p samples) (permute_distances p distances)
        = Inr (mk (C @ [3]) (\<lambda>idx. 0), mk (C @ [1]) (\<lambda>idx. 0), mk (C @ [N]) (\<lambda>idx. 0))"
    using ss' sd' bc zero' by (rule zero_density_outputs)
  ultimately show ?thesis by simp
qed

lemma denser_shape: "shape denser_samples = [] @ [2, 4]"
  by (simp add: denser_samples_def)

lemma denser_ray:
  "ray_sigma denser_samples [] [] 0 = 1" "ray_sigma denser_samples [] [] (Suc 0) = 2"
  "ray_rgb denser_samples [] [] 0 0 = 1" "ray_rgb denser_samples [] [] (Suc 0) 0 = 0"
  by (simp_all add: ray_sigma_def ray_rgb_def bproj_def item_def denser_samples_def)

lemma swapped_ray:
  "ray_sigma (permute_samples swap2 denser_samples) [] [] 0 = 2"
  "ray_sigma (permute_samples swap2 denser_samples) [] [] (Suc 0) = 1"
  "ray_rgb (permute_samples swap2 denser_samples) [] [] 0 0 = 0"
  "ray_rgb (permute_samples swap2 denser_samples) [] [] (Suc 0) 0 = 1"
  "ray_dist (permute_distances swap2 example_distances) [] [] 0 = 1"
  "ray_dist (permute_distances swap2 example_distances) [] [] (Suc 0) = 1"
proof -
  have s: "item (permute_samples swap2 denser_samples) ([] @ [i, c])
           = item denser_samples ([] @ [swap2 i, c])" if "i < 2" "c < 4" for i c
    using denser_shape _ that by (rule item_permute_samples) simp
  have d: "item (permute_distances swap2 example_distances) ([] @ [i])
           = item example_distances ([] @ [swap2 i])" if "i < 2" for i
    using example_shapes(2) _ that by (rule item_permute_distances) simp
  show "ray_sigma (permute_samples swap2 denser_samples) [] [] 0 = 2"
    "ray_sigma (permute_samples swap2 denser_samples) [] [] (Suc 0) = 1"
    "ray_rgb (permute_samples swap2 denser_samples) [] [] 0 0 = 0"
    "ray_rgb (permute_samples swap2 denser_samples) [] [] (Suc 0) 0 = 1"
    using s [of 0 3] s [of 1 3] s [of 0 0] s [of 1 0]
    by (simp_all add: ray_sigma_def ray_rgb_def bproj_def swap2_def item_def denser_samples_def)
  show "ray_dist (permute_distances swap2 example_distances) [] [] 0 = 1"
    "ray_dist (permute_distances swap2 example_distances) [] [] (Suc 0) = 1"
    using d [of 0] d [of 1]
    by (simp_all add: ray_dist_def bproj_def swap2_def item_def example_distances_def)
qed

lemma denser_weights:
  "spec_weight (ray_sigma denser_samples [] []) (ray_dist example_distances [] []) 0
   = 1 - exp (- 1)"
  "spec_weight (ray_sigma denser_samples [] []) (ray_dist example_distances [] []) (Suc 0)
   = (1 - exp (- 2)) * (exp (- 1) + epsilon)"
  by (simp_all add: spec_weight_def spec_alpha_def spec_T_Suc denser_ray example_ray)

lemma swapped_weights:
  "spec_weight (ray_sigma (permute_samples swap2 denser_samples) [] [])
     (ray_dist (permute_distances swap2 example_distances) [] []) 0 = 1 - exp (- 2)"
  "spec_weight (ray_sigma (permute_samples swap2 denser_samples) [] [])
     (ray_dist (permute_distances swap2 example_distances) [] []) (Suc 0)
   = (1 - exp (- 1)) * (exp (- 2) + epsilon)"
  by (simp_all add: spec_weight_def spec_alpha_def spec_T_Suc swapped_ray)

lemma denser_color:
  "spec_color 2 (ray_sigma denser_samples [] []) (ray_dist example_distances [] [])
     (ray_rgb denser_samples [] []) 0 = 1 - exp (- 1)"
  unfolding spec_color_def numeral_2_eq_2 sum.lessThan_Suc
  by (simp add: denser_weights denser_ray)

lemma swapped_color:
  "spec_color 2 (ray_sigma (permute_samples swap2 denser_samples) [] [])
     (ray_dist (permute_distances swap2 example_distances) [] [])
     (ray_rgb (permute_samples swap2 denser_samples) [] []) 0
   = (1 - exp (- 1)) * (exp (- 2) + epsilon)"
  unfolding spec_color_def numeral_2_eq_2 sum.lessThan_Suc
  by (simp add: swapped_weights swapped_ray)

lemma attenuation_less_1:
  "exp (- 1) + epsilon < (1::real)" "exp (- 2) + epsilon < (1::real)"
proof -
  have e1: "exp (- 1) < (0.367881 :: real)" by (rule exp_minus_1_bounds)
  have "exp (- 2) < exp (- (1::real))" by simp
  then have e2: "exp (- 2) < (0.367881 :: real)" using e1 by linarith
  have eps: "epsilon < (0.5 :: real)" by (simp add: epsilon_def)
  have c: "(0.367881 :: real) + 0.5 < 1" by simp
  show "exp (- 1) + epsilon < (1::real)" using e1 eps c by linarith
  show "exp (- 2) + epsilon < (1::real)" using e2 eps c by linarith
qed

lemma product_less_self:
  fixes x f :: real
  assumes "0 < x" "f < 1"
  shows "x * f \<noteq> x"
proof -
  have "x * f < x * 1" using assms by (intro mult_strict_left_mono) simp_all
  then have "x * f < x" by simp
  then show ?thesis by (rule less_imp_neq)
qed

lemma reordering_changes_outputs:
  "\<exists>color opacity weights color' opacity' weights'.
     compute_radiance denser_samples example_distances = Inr (color, opacity, weights)
     \<and> compute_radiance (permute_samples swap2 denser_samples)
           (permute_distances swap2 example_distances) = Inr (color', opacity', weights')
     \<and> weights' \<noteq> weights \<and> weights' \<noteq> permute_distances swap2 weights
     \<and> color' \<noteq> color"
proof -
  let ?r = "compute_radiance denser_samples example_distances"
  let ?r' = "compute_radiance (permute_samples swap2 denser_samples)
           (permute_distances swap2 example_distances)"
  note sh = denser_shape example_shapes(2) broadcast_shape_refl [of "[]"]
  have ps: "shape (permute_samples swap2 denser_samples) = [] @ [2, 4]"
    using denser_shape by simp
  have pd: "shape (permute_distances swap2 example_distances) = [] @ [2]"
    using example_shapes(2) by simp
  note sh' = ps pd broadcast_shape_refl [of "[]"]
  have r: "?r = Inr (color_of ?r, opacity_of ?r, weights_of ?r)"
    using outputs_items(1) [OF sh]
    by (cases ?r) (simp_all add: color_of_def opacity_of_def weights_of_def)
  have r': "?r' = Inr (color_of ?r', opacity_of ?r', weights_of ?r')"
    using outputs_items(1) [OF sh']
    by (cases ?r') (simp_all add: color_of_def opacity_of_def weights_of_def)
  have w0: "item (weights_of ?r) [0] = 1 - exp (- 1)"
    using outputs_items(7) [OF sh, of "[]" 0] by (simp add: denser_weights)
  have w1: "item (weights_of ?r) [1] = (1 - exp (- 2)) * (exp (- 1) + epsilon)"
    using outputs_items(7) [OF sh, of "[]" 1] by (simp add: denser_weights)
  have w0': "item (weights_of ?r') [0] = 1 - exp (- 2)"
    using outputs_items(7) [OF sh', of "[]" 0] by (simp add: swapped_weights)
  have c0: "item (color_of ?r) [0] = 1 - exp (- 1)"
    using outputs_items(5) [OF sh, of "[]" 0] by (simp add: denser_color)
  have c0': "item (color_of ?r') [0] = (1 - exp (- 1)) * (exp (- 2) + epsilon)"
    using outputs_items(5) [OF sh', of "[]" 0] by (simp add: swapped_color)
  have pw: "item (permute_distances swap2 (weights_of ?r)) [0] = item (weights_of ?r) [1]"
    using item_permute_distances [of "weights_of ?r" "[]" 2 "[]" 0 swap2]
      outputs_items(4) [OF sh]
    by (simp add: swap2_def)
  have "item (weights_of ?r') [0] \<noteq> item (weights_of ?r) [0]"
    unfolding w0 w0' by simp
  then have d1: "weights_of ?r' \<noteq> weights_of ?r" by auto
  have "(1 - exp (- 2)) * (exp (- 1) + epsilon) \<noteq> 1 - exp (- (2::real))"
    using attenuation_less_1(1) by (intro product_less_self) simp_all
  then have "item (weights_of ?r') [0] \<noteq> item (permute_distances swap2 (weights_of ?r)) [0]"
    unfolding pw w1 w0' by simp
  then have d2: "weights_of ?r' \<noteq> permute_distances swap2 (weights_of ?r)" by auto
  have "(1 - exp (- 1)) * (exp (- 2) + epsilon) \<noteq> 1 - exp (- (1::real))"
    using attenuation_less_1(2) by (intro product_less_self) simp_all
  then have "item (color_of ?r') [0] \<noteq> item (color_of ?r) [0]"
    unfolding c0 c0' by simp
  then have d3: "color_of ?r' \<noteq> color_of ?r" by auto
  show ?thesis
    apply (rule exI [of _ "color_of ?r"])
    apply (rule exI [of _ "opacity_of ?r"])
    apply (rule exI [of _ "weights_of ?r"])
    apply (rule exI [of _ "color_of ?r'"])
    apply (rule exI [of _ "opacity_of ?r'"])
    apply (rule exI [of _ "weights_of ?r'"])
    using r r' d1 d2 d3 by blast
qed

section \<open>The shape checks decide the preconditions\<close>

lemma pad_shape_nth_full:
  "length sh \<le> n \<Longrightarrow> j < n \<Longrightarrow>
   pad_shape n sh ! j = (if j < n - length sh then 1 else sh ! (j - (n - length sh)))"
  by (simp add: pad_shape_def nth_append)

lemma pad_shape_compatible_iff:
  assumes la: "length A \<le> n" and lb: "length B \<le> n"
  shows "(\<exists>j<n. \<not> dims_compatible (pad_shape n A ! j) (pad_shape n B ! j))
        \<longleftrightarrow> (\<exists>k. k < length A \<and> k < length B \<and> \<not> dims_compatible (rev A ! k) (rev B ! k))"
proof
  assume "\<exists>j<n. \<not> dims_compatible (pad_shape n A ! j) (pad_shape n B ! j)"
  then obtain j where j: "j < n"
    and nc: "\<not> dims_compatible (pad_shape n A ! j) (pad_shape n B ! j)" by blast
  have ja: "\<not> j < n - length A"
  proof
    assume "j < n - length A"
    then have "pad_shape n A ! j = 1" using la j by (simp add: pad_shape_nth_full)
    then show False using nc by (simp add: dims_compatible_def)
  qed
  have jb: "\<not> j < n - length B"
  proof
    assume "j < n - length B"
    then have "pad_shape n B ! j = 1" using lb j by (simp add: pad_shape_nth_full)
    then show False using nc by (simp add: dims_compatible_def)
  qed
  let ?k = "n - Suc j"
  have ka: "?k < length A" and kb: "?k < length B" using ja jb j by auto
  have ia: "length A - Suc ?k = j - (n - length A)" using ja j la by arith
  have ib: "length B - Suc ?k = j - (n - length B)" using jb j lb by arith
  have "rev A ! ?k = A ! (length A - Suc ?k)" using ka by (rule rev_nth)
  also have "\<dots> = pad_shape n A ! j"
    by (simp only: ia pad_shape_nth_full [OF la j] ja if_False)
  finally have ra: "rev A ! ?k = pad_shape n A ! j" .
  have "rev B ! ?k = B ! (length B - Suc ?k)" using kb by (rule rev_nth)
  also have "\<dots> = pad_shape n B ! j"
    by (simp only: ib pad_shape_nth_full [OF lb j] jb if_False)
  finally have rb: "rev B ! ?k = pad_shape n B ! j" .
  from ra rb
  have "\<not> dims_compatible (rev A ! ?k) (rev B ! ?k)"
    using nc by simp
  then show "\<exists>k. k < length A \<and> k < length B \<and> \<not> dims_compatible (rev A ! k) (rev B ! k)"
    using ka kb by blast
next
  assume "\<exists>k. k < length A \<and> k < length B \<and> \<not> dims_compatible (rev A ! k) (rev B ! k)"
  then obtain k where ka: "k < length A" and kb: "k < length B"
    and nc: "\<not> dims_compatible (rev A ! k) (rev B ! k)" by blast
  let ?j = "n - Suc k"
  have j: "?j < n" using ka la by arith
  have ja: "\<not> ?j < n - length A" using ka la by arith
  have jb: "\<not> ?j < n - length B" using kb lb by arith
  have ia: "length A - Suc k = ?j - (n - length A)" using ka la by arith
  have ib: "length B - Suc k = ?j - (n - length B)" using kb lb by arith
  have "rev A ! k = A ! (length A - Suc k)" using ka by (rule rev_nth)
  also have "\<dots> = pad_shape n A ! ?j"
    by (simp only: ia pad_shape_nth_full [OF la j] ja if_False)
  finally have ra: "rev A ! k = pad_shape n A ! ?j" .
  have "rev B ! k = B ! (length B - Suc k)" using kb by (rule rev_nth)
  also have "\<dots> = pad_shape n B ! ?j"
    by (simp only: ib pad_shape_nth_full [OF lb j] jb if_False)
  finally have rb: "rev B ! k = pad_shape n B ! ?j" .
  have "\<not> dims_compatible (pad_shape n A ! ?j) (pad_shape n B ! ?j)"
    using nc unfolding ra rb .
  then show "\<exists>j<n. \<not> dims_compatible (pad_shape n A ! j) (pad_shape n B ! j)"
    using j by blast
qed

lemma broadcast_shape_None_iff:
  "broadcast_shape A B = None \<longleftrightarrow>
   (\<exists>k. k < length A \<and> k < length B \<and> \<not> dims_compatible (rev A ! k) (rev B ! k))"
proof -
  let ?n = "max (length A) (length B)"
  have len: "length (pad_shape ?n A) = ?n" "length (pad_shape ?n B) = ?n"
    by (simp_all add: length_pad_shape)
  have "broadcast_shape A B = None \<longleftrightarrow>
      (\<exists>j<?n. \<not> dims_compatible (pad_shape ?n A ! j) (pad_shape ?n B ! j))"
    using len by (auto simp: broadcast_shape_def Let_def list_all2_conv_all_nth)
  also have "\<dots> \<longleftrightarrow>
      (\<exists>k. k < length A \<and> k < length B \<and> \<not> dims_compatible (rev A ! k) (rev B ! k))"
    by (rule pad_shape_compatible_iff) simp_all
  finally show ?thesis .
qed

lemma get_dim_minus_1:
  "get_dim sh (- 1) = (if sh = [] then None else Some (last sh))"
  by (cases sh rule: rev_cases) (simp_all add: get_dim_def Let_def nth_append)

lemma check_shapes_error: "check_shapes s d = Inl e \<Longrightarrow> e = ShapeError"
  by (auto simp: check_shapes_def check_static_has_dim_equals_def
      check_static_has_rank_greater_than_def compare_batch_dimensions_def
      compare_dimensions_def and_then_def split: if_splits option.splits)

lemma rank_2_shape:
  assumes "1 < length s"
  shows "s = butlast (butlast s) @ [last (butlast s), last s]"
proof -
  have s: "s \<noteq> []" using assms by auto
  have b: "butlast s \<noteq> []" using assms by (cases s rule: rev_cases) auto
  have "s = butlast s @ [last s]" using s by simp
  also have "butlast s = butlast (butlast s) @ [last (butlast s)]" using b by simp
  finally show ?thesis by simp
qed

lemma incompatible_batch_iff:
  "list_ex (\<lambda>(x, y). x \<noteq> y \<and> x \<noteq> 1 \<and> y \<noteq> 1) (zip (rev A) (rev B))
   \<longleftrightarrow> broadcast_shape A B = None"
  unfolding broadcast_shape_None_iff list_ex_length
  by (auto simp: dims_compatible_def)

lemma check_shapes_accepts:
  assumes "check_shapes samples (tf_expand_dims_last distances) = Inr ()"
  shows "\<not> precondition_violated (shape samples) (shape distances)"
proof -
  let ?s = "shape samples" and ?d = "shape distances"
  have e: "shape (tf_expand_dims_last distances) = ?d @ [1]"
    by (simp add: tf_expand_dims_last_def)
  have c1: "get_dim ?s (- 1) = Some 4" and c2: "1 < length ?s"
    and c3: "1 < length (?d @ [1])"
    and c4: "broadcast_shape (batch_dimensions ?s (- 3)) (batch_dimensions (?d @ [1]) (- 3))
             \<noteq> None"
    and c5: "compare_dimensions samples (tf_expand_dims_last distances) (- 2) = Inr ()"
    using assms
    unfolding check_shapes_def check_static_has_dim_equals_def
      check_static_has_rank_greater_than_def compare_batch_dimensions_def e
    by (simp_all add: and_then_def split: if_splits)
  have s1: "?s \<noteq> []" "last ?s = 4" using c1 by (simp_all add: get_dim_minus_1 split: if_splits)
  have d1: "?d \<noteq> []" using c3 by auto
  define A where "A = butlast (butlast ?s)"
  define N where "N = last (butlast ?s)"
  define B where "B = butlast ?d"
  define M where "M = last ?d"
  have s: "?s = A @ [N, 4]" using rank_2_shape [OF c2] s1 by (simp add: A_def N_def)
  have d: "?d @ [1] = B @ [M, 1]" using d1 by (simp add: B_def M_def)
  have bc: "broadcast_shape A B \<noteq> None"
    using c4 unfolding s d by (simp add: batch_dimensions_snoc2)
  have "N = M"
    using c5 unfolding compare_dimensions_def e s d
    by (simp add: get_dim_penult split: if_splits)
  then have n: "last (butlast ?s) = last ?d" by (simp add: N_def M_def)
  show ?thesis
    unfolding precondition_violated_def incompatible_batch_iff
    using s1 c2 c3 bc n by (simp add: A_def B_def)
qed

lemma accepted_shapes:
  assumes "\<not> precondition_violated s d"
  shows "\<exists>A N B C. s = A @ [N, 4] \<and> d = B @ [N] \<and> broadcast_shape A B = Some C"
proof -
  have s1: "s \<noteq> []" "last s = 4" and r: "1 < length s" and d1: "d \<noteq> []"
    and bc: "broadcast_shape (butlast (butlast s)) (butlast d) \<noteq> None"
    and n: "last (butlast s) = last d"
    using assms unfolding precondition_violated_def incompatible_batch_iff by auto
  have "s = butlast (butlast s) @ [last d, 4]" using rank_2_shape [OF r] s1 n by simp
  moreover have "d = butlast d @ [last d]" using d1 by simp
  ultimately show ?thesis using bc by blast
qed

lemma violated_raises:
  assumes "precondition_violated (shape samples) (shape distances)"
  shows "compute_radiance samples distances = Inl ShapeError"
proof (cases "check_shapes samples (tf_expand_dims_last distances)")
  case (Inl e)
  then show ?thesis
    using check_shapes_error [OF Inl] by (simp add: compute_radiance_def Let_def)
next
  case (Inr u)
  then show ?thesis using check_shapes_accepts [of samples distances] assms by simp
qed

lemma accepted_returns:
  assumes "\<not> precondition_violated (shape samples) (shape distances)"
  shows "\<not> isl (compute_radiance samples distances)"
proof -
  obtain A N B C where "shape samples = A @ [N, 4]" "shape distances = B @ [N]"
    "broadcast_shape A B = Some C"
    using accepted_shapes [OF assms] by blast
  then show ?thesis by (rule outputs_items(1))
qed

lemma broadcast_shape_equal_length:
  assumes "length Q' = length Q" "broadcast_shape Q Q' = Some Q''"
  shows "list_all2 dims_compatible Q Q'" "Q'' = map2 broadcast_dim Q Q'"
  using broadcast_shapeD(1,2) [OF assms(2)] assms(1) by (simp_all add: pad_shape_def)

lemma broadcast_shape_unit_axis:
  assumes p: "broadcast_shape P P' = Some P''" and q: "broadcast_shape Q Q' = Some Q''"
    and l: "length Q' = length Q"
  shows "broadcast_shape (P @ [m] @ Q) (P' @ [1] @ Q') = Some (P'' @ [m] @ Q'')"
proof -
  have "broadcast_shape (P @ ([m] @ Q)) (P' @ ([1] @ Q'))
        = Some (P'' @ map2 broadcast_dim ([m] @ Q) ([1] @ Q'))"
    using broadcast_shape_equal_length(1) [OF l q] l
    by (intro broadcast_shape_append [OF p]) (simp_all add: dims_compatible_def)
  then show ?thesis
    using broadcast_shape_equal_length(2) [OF l q] by (simp add: broadcast_dim_def)
qed

lemma broadcast_shape_mismatch:
  assumes l: "length Q' = length Q" and "m \<noteq> k" "m \<noteq> 1" "k \<noteq> 1"
  shows "broadcast_shape (P @ [m] @ Q) (P' @ [k] @ Q') = None"
proof -
  have "rev (P @ [m] @ Q) ! length Q = m"
    using nth_append_length [of "rev Q" m "rev P"] by simp
  moreover have "rev (P' @ [k] @ Q') ! length Q = k"
    using nth_append_length [of "rev Q'" k "rev P'"] l by simp
  ultimately have "\<not> dims_compatible (rev (P @ [m] @ Q) ! length Q)
                      (rev (P' @ [k] @ Q') ! length Q)"
    using assms by (simp add: dims_compatible_def)
  moreover have "length Q < length (P @ [m] @ Q)" "length Q < length (P' @ [k] @ Q')"
    using l by simp_all
  ultimately show ?thesis unfolding broadcast_shape_None_iff by blast
qed

section \<open>The claims\<close>

text \<open>
  C1: for samples of shape \<open>A @ [N, 4]\<close> and distances of shape \<open>B @ [N]\<close> whose batch
  shapes \<open>A\<close> and \<open>B\<close> broadcast to \<open>C\<close>, \<open>compute_radiance\<close> returns exactly the
  tensors of the compositing formulas: the color of shape \<open>C @ [3]\<close> is the sum of
  \<open>weight_i * rgb_i\<close> per channel, the opacity of shape \<open>C @ [1]\<close> is the sum of the
  weights, and the weights of shape \<open>C @ [N]\<close> are \<open>alpha_i * T_i\<close>, with
  \<open>alpha_i = 1 - exp (- sigma_i * distance_i)\<close> and \<open>T_i\<close> the product over \<open>j < i\<close> of
  \<open>1 - alpha_j + 1e-10\<close>.
\<close>

theorem compute_radiance_formulas:
  assumes "shape samples = A @ [N, 4]" and "shape distances = B @ [N]"
    and "broadcast_shape A B = Some C"
  shows "compute_radiance samples distances = Inr
    (mk (C @ [3]) (\<lambda>idx. spec_color N (ray_sigma samples A (butlast idx))
        (ray_dist distances B (butlast idx)) (ray_rgb samples A (butlast idx)) (last idx)),
     mk (C @ [1]) (\<lambda>idx. spec_opacity N (ray_sigma samples A (butlast idx))
        (ray_dist distances B (butlast idx))),
     mk (C @ [N]) (\<lambda>idx. spec_weight (ray_sigma samples A (butlast idx))
        (ray_dist distances B (butlast idx)) (last idx)))"
  using assms by (rule compute_radiance_eq)

theorem compute_radiance_formulas_witness:
  "shape example_samples = [] @ [2, 4] \<and> shape example_distances = [] @ [2]
   \<and> broadcast_shape [] [] = Some []
   \<and> compute_radiance example_samples example_distances = Inr
    (mk ([] @ [3]) (\<lambda>idx. spec_color 2 (ray_sigma example_samples [] (butlast idx))
        (ray_dist example_distances [] (butlast idx))
        (ray_rgb example_samples [] (butlast idx)) (last idx)),
     mk ([] @ [1]) (\<lambda>idx. spec_opacity 2 (ray_sigma example_samples [] (butlast idx))
        (ray_dist example_distances [] (butlast idx))),
     mk ([] @ [2]) (\<lambda>idx. spec_weight (ray_sigma example_samples [] (butlast idx))
        (ray_dist example_distances [] (butlast idx)) (last idx)))"
proof -
  have s: "shape example_samples = [] @ [2, 4]" by (simp add: example_samples_def)
  have d: "shape example_distances = [] @ [2]" by (simp add: example_distances_def)
  have b: "broadcast_shape [] [] = Some []" by (rule broadcast_shape_refl)
  show ?thesis using compute_radiance_formulas [OF s d b] s d b by simp
qed

text \<open>
  C3: when every density is zero, the weights, the opacity and the color are exactly zero,
  whatever the distances are.
\<close>

theorem zero_density_zero_outputs:
  assumes "shape samples = A @ [N, 4]" and "shape distances = B @ [N]"
    and "broadcast_shape A B = Some C"
    and "\<And>a i. in_range A a \<Longrightarrow> i < N \<Longrightarrow> item samples (a @ [i, 3]) = 0"
  shows "compute_radiance samples distances
         = Inr (mk (C @ [3]) (\<lambda>idx. 0), mk (C @ [1]) (\<lambda>idx. 0), mk (C @ [N]) (\<lambda>idx. 0))"
  using assms by (rule zero_density_outputs)

theorem zero_density_zero_outputs_witness:
  "item clear_samples [0, 3] = 0 \<and> item clear_samples [1, 3] = 0
   \<and> compute_radiance clear_samples far_distances
       = Inr (mk [3] (\<lambda>idx. 0), mk [1] (\<lambda>idx. 0), mk [2] (\<lambda>idx. 0))"
proof -
  have s: "shape clear_samples = [] @ [2, 4]" by (simp add: clear_samples_def)
  have d: "shape far_distances = [] @ [2]" by (simp add: far_distances_def)
  have b: "broadcast_shape [] [] = Some []" by (rule broadcast_shape_refl)
  have z0: "item clear_samples [0, 3] = 0" and z1: "item clear_samples [1, 3] = 0"
    by (simp_all add: clear_samples_def item_def)
  have z: "item clear_samples (a @ [i, 3]) = 0" if "in_range [] a" "i < 2" for a i
    using that z0 z1 by (auto simp: less_2_cases_iff)
  show ?thesis
    using zero_density_zero_outputs [OF s d b z] z0 z1 by simp
qed

text \<open>
  C4, as amended: for non-negative densities and distances every weight is non-negative,
  the weight of sample \<open>i\<close> is at most \<open>(1 + epsilon) ^ i\<close>, and the weights of a ray
  sum to at most \<open>(1 + epsilon) ^ (N - 1)\<close> (to at most 1 on a ray without samples). For
  rays of one or two samples this is the bound \<open>1 + epsilon\<close> of the claim or better; from
  the third sample on the bound of the claim does not hold, since each factor of the
  cumulative product may be as large as \<open>1 + epsilon\<close>.
\<close>

theorem weights_bounded:
  assumes ss: "shape samples = A @ [N, 4]" and sd: "shape distances = B @ [N]"
    and bc: "broadcast_shape A B = Some C"
    and sg: "\<And>a i. in_range A a \<Longrightarrow> i < N \<Longrightarrow> 0 \<le> item samples (a @ [i, 3])"
    and dl: "\<And>a i. in_range B a \<Longrightarrow> i < N \<Longrightarrow> 0 \<le> item distances (a @ [i])"
  shows "\<exists>color opacity weights.
           compute_radiance samples distances = Inr (color, opacity, weights)
           \<and> (\<forall>b i. in_range C b \<and> i < N \<longrightarrow>
                  0 \<le> item weights (b @ [i]) \<and> item weights (b @ [i]) \<le> (1 + epsilon) ^ i)
           \<and> (\<forall>b. in_range C b \<longrightarrow> (\<Sum>i<N. item weights (b @ [i])) \<le> (1 + epsilon) ^ (N - 1))"
proof (intro exI conjI allI impI)
  show "compute_radiance samples distances = Inr
    (mk (C @ [3]) (\<lambda>idx. spec_color N (ray_sigma samples A (butlast idx))
        (ray_dist distances B (butlast idx)) (ray_rgb samples A (butlast idx)) (last idx)),
     mk (C @ [1]) (\<lambda>idx. spec_opacity N (ray_sigma samples A (butlast idx))
        (ray_dist distances B (butlast idx))),
     mk (C @ [N]) (\<lambda>idx. spec_weight (ray_sigma samples A (butlast idx))
        (ray_dist distances B (butlast idx)) (last idx)))"
    using ss sd bc by (rule compute_radiance_eq)
next
  fix b i assume bi: "in_range C b \<and> i < N"
  then have b: "in_range C b" and i: "i < N" by simp_all
  have nn: "0 \<le> ray_sigma samples A b j \<and> 0 \<le> ray_dist distances B b j" if "j < N" for j
    using ray_sigma_bproj [OF bc b, of N "\<lambda>x. 0 \<le> x" samples j]
      ray_dist_bproj [OF bc b, of N "\<lambda>x. 0 \<le> x" distances j] sg dl that by simp
  have w: "item (mk (C @ [N]) (\<lambda>idx. spec_weight (ray_sigma samples A (butlast idx))
        (ray_dist distances B (butlast idx)) (last idx))) (b @ [i])
      = spec_weight (ray_sigma samples A b) (ray_dist distances B b) i"
    using b i by simp
  show "0 \<le> item (mk (C @ [N]) (\<lambda>idx. spec_weight (ray_sigma samples A (butlast idx))
        (ray_dist distances B (butlast idx)) (last idx))) (b @ [i])"
    unfolding w using nn [OF i] by (intro spec_weight_nonneg) simp_all
  show "item (mk (C @ [N]) (\<lambda>idx. spec_weight (ray_sigma samples A (butlast idx))
        (ray_dist distances B (butlast idx)) (last idx))) (b @ [i]) \<le> (1 + epsilon) ^ i"
    unfolding w using nn i by (intro spec_weight_le) simp
next
  fix b assume b: "in_range C b"
  have nn: "0 \<le> ray_sigma samples A b j \<and> 0 \<le> ray_dist distances B b j" if "j < N" for j
    using ray_sigma_bproj [OF bc b, of N "\<lambda>x. 0 \<le> x" samples j]
      ray_dist_bproj [OF bc b, of N "\<lambda>x. 0 \<le> x" distances j] sg dl that by simp
  have "(\<Sum>i<N. item (mk (C @ [N]) (\<lambda>idx. spec_weight (ray_sigma samples A (butlast idx))
        (ray_dist distances B (butlast idx)) (last idx))) (b @ [i]))
      = spec_opacity N (ray_sigma samples A b) (ray_dist distances B b)"
    unfolding spec_opacity_def using b by (intro sum.cong) simp_all
  also have "\<dots> \<le> (1 + epsilon) ^ (N - 1)"
    using spec_opacity_less [of N "ray_sigma samples A b" "ray_dist distances B b"] nn
    by fastforce
  finally show "(\<Sum>i<N. item (mk (C @ [N]) (\<lambda>idx. spec_weight (ray_sigma samples A (butlast idx))
        (ray_dist distances B (butlast idx)) (last idx))) (b @ [i])) \<le> (1 + epsilon) ^ (N - 1)" .
qed

theorem weights_bounded_witness:
  "0 \<le> item (weights_of (compute_radiance example_samples example_distances)) [1]
   \<and> item (weights_of (compute_radiance example_samples example_distances)) [1]
       \<le> (1 + epsilon) ^ 1
   \<and> (\<Sum>i<2. item (weights_of (compute_radiance example_samples example_distances)) [i])
       \<le> 1 + epsilon"
proof -
  obtain c o' w where r: "compute_radiance example_samples example_distances = Inr (c, o', w)"
    and wb: "\<forall>b i. in_range [] b \<and> i < 2 \<longrightarrow>
                0 \<le> item w (b @ [i]) \<and> item w (b @ [i]) \<le> (1 + epsilon) ^ i"
    and sb: "\<forall>b. in_range [] b \<longrightarrow> (\<Sum>i<2. item w (b @ [i])) \<le> (1 + epsilon) ^ (2 - 1)"
    using weights_bounded [OF example_shapes broadcast_shape_refl example_nonneg]
    by blast
  have w: "weights_of (compute_radiance example_samples example_distances) = w"
    by (simp add: r weights_of_def)
  show ?thesis
    unfolding w using wb [rule_format, of "[]" 1] sb [rule_format, of "[]"] by simp
qed

text \<open>
  The claim C4 as stated fails: after two samples of density zero the transmittance is
  \<open>(1 + epsilon)\<^sup>2\<close>, and a third sample of density \<open>10^11\<close> gets a weight above
  \<open>1 + epsilon\<close>.
\<close>

theorem weight_bound_counterexample:
  "\<not> isl (compute_radiance bound_samples bound_distances)
   \<and> 0 \<le> item bound_samples [0, 3] \<and> 0 \<le> item bound_samples [1, 3]
   \<and> 0 \<le> item bound_samples [2, 3]
   \<and> 0 \<le> item bound_distances [0] \<and> 0 \<le> item bound_distances [1]
   \<and> 0 \<le> item bound_distances [2]
   \<and> 1 + epsilon < item (weights_of (compute_radiance bound_samples bound_distances)) [2]"
proof -
  have s: "shape bound_samples = [] @ [3, 4]" by (simp add: bound_samples_def)
  have d: "shape bound_distances = [] @ [3]" by (simp add: bound_distances_def)
  have b: "broadcast_shape [] [] = Some []" by (rule broadcast_shape_refl)
  have w: "item (weights_of (compute_radiance bound_samples bound_distances)) [2]
           = (1 - exp (- (10 ^ 11))) * (1 + epsilon) * (1 + epsilon)"
    using outputs_items(7) [OF s d b, of "[]" 2] by (simp add: bound_weights)
  have "(1 + epsilon) * 1 < (1 + epsilon) * ((1 - exp (- (10 ^ 11))) * (1 + epsilon))"
    using opaque_alpha epsilon_pos by (intro mult_strict_left_mono) simp_all
  then have "1 + epsilon < item (weights_of (compute_radiance bound_samples bound_distances)) [2]"
    unfolding w by (simp add: mult.assoc mult.left_commute mult.commute)
  then show ?thesis
    using outputs_items(1) [OF s d b]
    by (simp add: item_def bound_samples_def bound_distances_def)
qed




text \<open>
  C7: on the end-to-end example (two samples, \<open>rgb = [[1,0,0],[0,1,0]]\<close>,
  \<open>sigma = [1,1]\<close>, \<open>distances = [1,1]\<close>) both alpha values are \<open>1 - exp (- 1)\<close>, which
  is 0.632 to three decimals; the weights are 0.632 and 0.233, the opacity is 0.865 and the
  color is \<open>[0.632, 0.233, 0]\<close>, each to three decimals (within 0.0005), the last
  channel exactly 0.
\<close>

theorem example_end_to_end:
  "\<exists>alpha color opacity weights.
     radiance_alpha example_samples example_distances = Inr alpha
     \<and> compute_radiance example_samples example_distances = Inr (color, opacity, weights)
     \<and> shape alpha = [2] \<and> shape color = [3] \<and> shape opacity = [1] \<and> shape weights = [2]
     \<and> item alpha [0] = 1 - exp (- 1) \<and> item alpha [1] = 1 - exp (- 1)
     \<and> \<bar>item alpha [0] - 0.632\<bar> < 0.0005 \<and> \<bar>item alpha [1] - 0.632\<bar> < 0.0005
     \<and> \<bar>item weights [0] - 0.632\<bar> < 0.0005 \<and> \<bar>item weights [1] - 0.233\<bar> < 0.0005
     \<and> \<bar>item opacity [0] - 0.865\<bar> < 0.0005
     \<and> \<bar>item color [0] - 0.632\<bar> < 0.0005 \<and> \<bar>item color [1] - 0.233\<bar> < 0.0005
     \<and> item color [2] = 0"
proof -
  let ?sg = "ray_sigma example_samples [] []"
  let ?dl = "ray_dist example_distances [] []"
  let ?alpha = "mk ([] @ [2]) (\<lambda>idx. spec_alpha (ray_sigma example_samples [] (butlast idx))
        (ray_dist example_distances [] (butlast idx)) (last idx))"
  let ?r = "compute_radiance example_samples example_distances"
  note sh = example_shapes broadcast_shape_refl [of "[]"]
  have al: "radiance_alpha example_samples example_distances = Inr ?alpha"
    by (rule radiance_alpha_eq [OF sh])
  have r: "?r = Inr (color_of ?r, opacity_of ?r, weights_of ?r)"
    using outputs_items(1) [OF sh]
    by (cases ?r) (simp_all add: color_of_def opacity_of_def weights_of_def)
  have a0: "item ?alpha [0] = 1 - exp (- 1)"
    using item_mk [of "[] @ [2]" "[] @ [0]"] by (simp add: example_alpha)
  have a1: "item ?alpha [1] = 1 - exp (- 1)"
    using item_mk [of "[] @ [2]" "[] @ [1]"] by (simp add: example_alpha)
  have w0: "item (weights_of ?r) [0] = 1 - exp (- 1)"
    using outputs_items(7) [OF sh, of "[]" 0] by (simp add: example_weights)
  have w1: "item (weights_of ?r) [1] = (1 - exp (- 1)) * (exp (- 1) + epsilon)"
    using outputs_items(7) [OF sh, of "[]" 1] by (simp add: example_weights)
  have o: "item (opacity_of ?r) [0] = (1 - exp (- 1)) + (1 - exp (- 1)) * (exp (- 1) + epsilon)"
    using outputs_items(6) [OF sh, of "[]"] by (simp add: example_opacity)
  have c0: "item (color_of ?r) [0] = 1 - exp (- 1)"
    using outputs_items(5) [OF sh, of "[]" 0] by (simp add: example_color)
  have c1: "item (color_of ?r) [1] = (1 - exp (- 1)) * (exp (- 1) + epsilon)"
    using outputs_items(5) [OF sh, of "[]" 1] by (simp add: example_color)
  have c2: "item (color_of ?r) [2] = 0"
    using outputs_items(5) [OF sh, of "[]" 2] by (simp add: example_color)
  have ab: "\<bar>(1 - exp (- 1)) - 0.632\<bar> < (0.0005 :: real)"
    using exp_minus_1_bounds by (simp add: abs_less_iff)
  have wb: "\<bar>(1 - exp (- 1)) * (exp (- 1) + epsilon) - 0.233\<bar> < (0.0005 :: real)"
    using second_weight_bounds by (simp add: abs_less_iff)
  have ob: "\<bar>(1 - exp (- 1)) + (1 - exp (- 1)) * (exp (- 1) + epsilon) - 0.865\<bar>
            < (0.0005 :: real)"
    using second_weight_bounds exp_minus_1_bounds by (rule opacity_approx)
  have shapes: "shape ?alpha = [2]" "shape (color_of ?r) = [3]" "shape (opacity_of ?r) = [1]"
    "shape (weights_of ?r) = [2]"
    using outputs_items(2-4) [OF sh] by simp_all
  show ?thesis
    apply (rule exI [of _ ?alpha])
    apply (rule exI [of _ "color_of ?r"])
    apply (rule exI [of _ "opacity_of ?r"])
    apply (rule exI [of _ "weights_of ?r"])
    unfolding a0 a1 w0 w1 o c0 c1 c2 shapes
    using al r ab wb ob by simp
qed

text \<open>
  C6, as amended: when the density of sample \<open>i\<close> is increased, everything else held
  fixed, and the distance of sample \<open>i\<close> is non-negative, the accumulated opacity of a ray
  does not decrease provided that the opacity the samples after \<open>i\<close> accumulate on their
  own (the sum over \<open>j > i\<close> of \<open>alpha_j\<close> times the product over \<open>i < k < j\<close> of
  \<open>1 - alpha_k + 1e-10\<close>) is at most 1. This holds in particular for the last sample of a
  ray, after which there is no sample.
\<close>

theorem opacity_monotone_in_sigma:
  assumes ss: "shape samples = A @ [N, 4]" and ss': "shape samples' = A @ [N, 4]"
    and sd: "shape distances = B @ [N]"
    and bc: "broadcast_shape A B = Some C"
    and i: "i < N"
    and same: "\<And>a j c. in_range A a \<Longrightarrow> j < N \<Longrightarrow> c < 4 \<Longrightarrow> j \<noteq> i \<or> c \<noteq> 3 \<Longrightarrow>
                 item samples' (a @ [j, c]) = item samples (a @ [j, c])"
    and le: "\<And>a. in_range A a \<Longrightarrow> item samples (a @ [i, 3]) \<le> item samples' (a @ [i, 3])"
    and d: "\<And>a. in_range B a \<Longrightarrow> 0 \<le> item distances (a @ [i])"
  shows "\<exists>color opacity weights color' opacity' weights'.
     compute_radiance samples distances = Inr (color, opacity, weights)
     \<and> compute_radiance samples' distances = Inr (color', opacity', weights')
     \<and> (\<forall>b. in_range C b
              \<and> spec_opacity (N - Suc i) (\<lambda>k. ray_sigma samples A b (Suc i + k))
                    (\<lambda>k. ray_dist distances B b (Suc i + k)) \<le> 1
            \<longrightarrow> item opacity (b @ [0]) \<le> item opacity' (b @ [0]))"
proof -
  let ?r = "compute_radiance samples distances"
  let ?r' = "compute_radiance samples' distances"
  have r: "?r = Inr (color_of ?r, opacity_of ?r, weights_of ?r)"
    using outputs_items(1) [OF ss sd bc]
    by (cases ?r) (simp_all add: color_of_def opacity_of_def weights_of_def)
  have r': "?r' = Inr (color_of ?r', opacity_of ?r', weights_of ?r')"
    using outputs_items(1) [OF ss' sd bc]
    by (cases ?r') (simp_all add: color_of_def opacity_of_def weights_of_def)
  have mono: "item (opacity_of ?r) (b @ [0]) \<le> item (opacity_of ?r') (b @ [0])"
    if b: "in_range C b"
      and tail: "spec_opacity (N - Suc i) (\<lambda>k. ray_sigma samples A b (Suc i + k))
                    (\<lambda>k. ray_dist distances B b (Suc i + k)) \<le> 1"
    for b
  proof -
    have a: "in_range A (bproj A b)" using bc b by (rule bproj_left_in_range)
    have a': "in_range B (bproj B b)" using bc b by (rule bproj_right_in_range)
    have 1: "ray_sigma samples' A b j = ray_sigma samples A b j" if "j < N" "j \<noteq> i" for j
      unfolding ray_sigma_def using same [OF a that(1), of 3] that(2) by simp
    have 2: "ray_sigma samples A b i \<le> ray_sigma samples' A b i"
      unfolding ray_sigma_def using le [OF a] .
    have 3: "0 \<le> ray_dist distances B b i"
      unfolding ray_dist_def using d [OF a'] .
    have "spec_opacity N (ray_sigma samples A b) (ray_dist distances B b)
          \<le> spec_opacity N (ray_sigma samples' A b) (ray_dist distances B b)"
      using i 1 2 3 tail by (rule spec_opacity_mono_sigma)
    then show ?thesis
      unfolding outputs_items(6) [OF ss sd bc b] outputs_items(6) [OF ss' sd bc b] .
  qed
  show ?thesis
    apply (rule exI [of _ "color_of ?r"])
    apply (rule exI [of _ "opacity_of ?r"])
    apply (rule exI [of _ "weights_of ?r"])
    apply (rule exI [of _ "color_of ?r'"])
    apply (rule exI [of _ "opacity_of ?r'"])
    apply (rule exI [of _ "weights_of ?r'"])
    using r r' mono by blast
qed

theorem opacity_monotone_in_sigma_witness:
  "item example_samples [1, 3] \<le> item denser_samples [1, 3]
   \<and> 0 \<le> item example_distances [1]
   \<and> item (opacity_of (compute_radiance example_samples example_distances)) [0]
       \<le> item (opacity_of (compute_radiance denser_samples example_distances)) [0]"
proof -
  have s': "shape denser_samples = [] @ [2, 4]" by (simp add: denser_samples_def)
  have i: "(1::nat) < 2" by simp
  have le: "item example_samples (a @ [1, 3]) \<le> item denser_samples (a @ [1, 3])"
    if "in_range [] a" for a
    using that by (simp add: item_def denser_samples_def example_samples_def)
  have d: "0 \<le> item example_distances (a @ [1])" if "in_range [] a" for a
    using that by (simp add: item_def example_distances_def)
  obtain c o' w c2 o2 w2 where
    r: "compute_radiance example_samples example_distances = Inr (c, o', w)"
    and r2: "compute_radiance denser_samples example_distances = Inr (c2, o2, w2)"
    and m: "\<forall>b. in_range [] b
              \<and> spec_opacity (2 - Suc 1) (\<lambda>k. ray_sigma example_samples [] b (Suc 1 + k))
                    (\<lambda>k. ray_dist example_distances [] b (Suc 1 + k)) \<le> 1
            \<longrightarrow> item o' (b @ [0]) \<le> item o2 (b @ [0])"
    using opacity_monotone_in_sigma [OF example_shapes(1) s' example_shapes(2)
        broadcast_shape_refl i denser_same le d]
    by blast
  have o: "opacity_of (compute_radiance example_samples example_distances) = o'"
    "opacity_of (compute_radiance denser_samples example_distances) = o2"
    by (simp_all add: r r2 opacity_of_def)
  show ?thesis
    unfolding o using m [rule_format, of "[]"] le [of "[]"] d [of "[]"] by simp
qed

text \<open>
  The claim C6 as stated fails: on the ray with densities \<open>0, 0, 10^11\<close> and distances 1,
  raising the first density from 0 to 1 lowers the accumulated opacity. The samples after
  the first accumulate \<open>(1 - exp (- 10^11)) * (1 + epsilon)\<close>, which is above 1.
\<close>

theorem opacity_monotone_counterexample:
  "\<not> isl (compute_radiance bound_samples bound_distances)
   \<and> \<not> isl (compute_radiance raised_samples bound_distances)
   \<and> item bound_samples [0, 3] = 0 \<and> item raised_samples [0, 3] = 1
   \<and> item bound_samples [1, 3] = item raised_samples [1, 3]
   \<and> item bound_samples [2, 3] = item raised_samples [2, 3]
   \<and> item (opacity_of (compute_radiance raised_samples bound_distances)) [0]
       < item (opacity_of (compute_radiance bound_samples bound_distances)) [0]"
proof -
  have s: "shape bound_samples = [] @ [3, 4]" by (simp add: bound_samples_def)
  have s': "shape raised_samples = [] @ [3, 4]" by (simp add: raised_samples_def)
  have d: "shape bound_distances = [] @ [3]" by (simp add: bound_distances_def)
  have b: "broadcast_shape [] [] = Some []" by (rule broadcast_shape_refl)
  let ?X = "(1 - exp (- (10 ^ 11))) * (1 + epsilon)"
  have "spec_opacity 3 (ray_sigma bound_samples [] []) (ray_dist bound_distances [] [])
        = ?X * (1 + epsilon)"
    unfolding numeral_3_eq_3 spec_opacity_Suc
    by (simp add: bound_weights flip: numeral_2_eq_2)
  then have o: "item (opacity_of (compute_radiance bound_samples bound_distances)) [0]
           = ?X * (1 + epsilon)"
    using outputs_items(6) [OF s d b, of "[]"] by simp
  have "spec_opacity 3 (ray_sigma raised_samples [] []) (ray_dist bound_distances [] [])
        = (1 - exp (- 1)) + ?X * (1 - (1 - exp (- 1)) + epsilon)"
    unfolding numeral_3_eq_3 spec_opacity_Suc
    by (simp add: raised_weights flip: numeral_2_eq_2)
  then have o': "item (opacity_of (compute_radiance raised_samples bound_distances)) [0]
           = (1 - exp (- 1)) + ?X * (1 - (1 - exp (- 1)) + epsilon)"
    using outputs_items(6) [OF s' d b, of "[]"] by simp
  have a: "0 < 1 - exp (- (1::real))" by simp
  have "item (opacity_of (compute_radiance raised_samples bound_distances)) [0]
       < item (opacity_of (compute_radiance bound_samples bound_distances)) [0]"
    unfolding o o' using a opaque_alpha by (rule raised_opacity_less)
  then show ?thesis
    using outputs_items(1) [OF s d b] outputs_items(1) [OF s' d b]
    by (simp add: item_def bound_samples_def raised_samples_def)
qed

text \<open>
  C9: there is an input and a permutation of its sample axis, applied to the samples and
  to the distances together, for which \<open>compute_radiance\<close> returns other weights (neither
  the weights of the unpermuted input nor those weights permuted) and another color: one
  ray with densities 1 and 2, colors \<open>[1,0,0]\<close> and \<open>[0,1,0]\<close>, distances 1, and its two
  samples exchanged. When every density is zero, every permutation of the sample axis
  leaves the three outputs unchanged.
\<close>

theorem order_sensitivity:
  "(\<exists>samples distances N p.
      shape samples = [N, 4] \<and> shape distances = [N] \<and> bij_betw p {..<N} {..<N}
      \<and> (\<exists>color opacity weights color' opacity' weights'.
            compute_radiance samples distances = Inr (color, opacity, weights)
            \<and> compute_radiance (permute_samples p samples) (permute_distances p distances)
                = Inr (color', opacity', weights')
            \<and> weights' \<noteq> weights \<and> weights' \<noteq> permute_distances p weights
            \<and> color' \<noteq> color))
   \<and> (\<forall>samples distances A B C N p.
        shape samples = A @ [N, 4] \<and> shape distances = B @ [N]
        \<and> broadcast_shape A B = Some C \<and> bij_betw p {..<N} {..<N}
        \<and> (\<forall>a i. in_range A a \<and> i < N \<longrightarrow> item samples (a @ [i, 3]) = 0)
        \<longrightarrow> compute_radiance (permute_samples p samples) (permute_distances p distances)
            = compute_radiance samples distances)"
proof (intro conjI allI impI)
  show "\<exists>samples distances N p.
      shape samples = [N, 4] \<and> shape distances = [N] \<and> bij_betw p {..<N} {..<N}
      \<and> (\<exists>color opacity weights color' opacity' weights'.
            compute_radiance samples distances = Inr (color, opacity, weights)
            \<and> compute_radiance (permute_samples p samples) (permute_distances p distances)
                = Inr (color', opacity', weights')
            \<and> weights' \<noteq> weights \<and> weights' \<noteq> permute_distances p weights
            \<and> color' \<noteq> color)"
    apply (rule exI [of _ denser_samples])
    apply (rule exI [of _ example_distances])
    apply (rule exI [of _ 2])
    apply (rule exI [of _ swap2])
    using reordering_changes_outputs bij_betw_swap2 denser_shape example_shapes(2)
    by simp
next
  fix samples distances :: tensor and A B C N p
  assume h: "shape samples = A @ [N, 4] \<and> shape distances = B @ [N]
        \<and> broadcast_shape A B = Some C \<and> bij_betw p {..<N} {..<N}
        \<and> (\<forall>a i. in_range A a \<and> i < N \<longrightarrow> item samples (a @ [i, 3]) = 0)"
  show "compute_radiance (permute_samples p samples) (permute_distances p distances)
            = compute_radiance samples distances"
    using h by (intro zero_density_reordered [of samples A N distances B C p]) simp_all
qed

theorem order_sensitivity_witness:
  "item clear_samples [0, 3] = 0 \<and> item clear_samples [1, 3] = 0
   \<and> bij_betw swap2 {..<2} {..<2}
   \<and> compute_radiance (permute_samples swap2 clear_samples)
         (permute_distances swap2 far_distances)
       = compute_radiance clear_samples far_distances"
proof -
  have s: "shape clear_samples = [] @ [2, 4]" by (simp add: clear_samples_def)
  have d: "shape far_distances = [] @ [2]" by (simp add: far_distances_def)
  have b: "broadcast_shape [] [] = Some []" by (rule broadcast_shape_refl)
  have z0: "item clear_samples [0, 3] = 0" and z1: "item clear_samples [1, 3] = 0"
    by (simp_all add: clear_samples_def item_def)
  have z: "\<forall>a i. in_range [] a \<and> i < 2 \<longrightarrow> item clear_samples (a @ [i, 3]) = 0"
    using z0 z1 by (auto simp: less_2_cases_iff)
  have "compute_radiance (permute_samples swap2 clear_samples)
         (permute_distances swap2 far_distances)
       = compute_radiance clear_samples far_distances"
    using order_sensitivity [THEN conjunct2, rule_format,
        of clear_samples "[]" 2 far_distances "[]" "[]" swap2]
      s d b z bij_betw_swap2 by blast
  then show ?thesis using z0 z1 bij_betw_swap2 by simp
qed

text \<open>
  C2: whenever a shape precondition is violated (the last axis of the samples is not 4,
  the rank of the samples is not greater than 1, the rank of the distances with its unit
  axis appended is not greater than 1, two aligned batch dimensions are neither equal nor
  is one of them 1, or the sample counts differ), \<open>compute_radiance\<close> raises the
  \<open>ShapeError\<close> and returns no output. The condition is on the two shapes alone, so the
  outcome is the same for all elements of the tensors: the checks come before the numeric
  work, and no array primitive gets to raise its own error. When no precondition is
  violated the call returns its outputs.
\<close>

theorem shape_violation_raises:
  "(precondition_violated (shape samples) (shape distances)
      \<longrightarrow> compute_radiance samples distances = Inl ShapeError)
   \<and> (\<not> precondition_violated (shape samples) (shape distances)
      \<longrightarrow> \<not> isl (compute_radiance samples distances))"
  using violated_raises [of samples distances] accepted_returns [of samples distances]
  by blast

theorem shape_violation_raises_witness:
  "precondition_violated (shape bad_samples) (shape example_distances)
   \<and> compute_radiance bad_samples example_distances = Inl ShapeError
   \<and> \<not> precondition_violated (shape example_samples) (shape example_distances)
   \<and> \<not> isl (compute_radiance example_samples example_distances)"
proof -
  have v: "precondition_violated (shape bad_samples) (shape example_distances)"
    by (simp add: precondition_violated_def bad_samples_def)
  have a: "\<not> precondition_violated (shape example_samples) (shape example_distances)"
    by (simp add: precondition_violated_def example_samples_def example_distances_def)
  show ?thesis
    using shape_violation_raises [of bad_samples example_distances]
      shape_violation_raises [of example_samples example_distances] v a
    by blast
qed

text \<open>
  C8: when the distances have a batch dimension of size 1 where the samples have size
  \<open>m\<close> (5 in the specification) and the other batch dimensions broadcast, the call
  succeeds and that batch dimension of the three outputs has size \<open>m\<close>; when the two
  sizes differ and neither is 1 (2 against 5), the call raises the \<open>ShapeError\<close>.
\<close>

theorem batch_broadcasting:
  "(shape samples = P @ [m] @ Q @ [N, 4] \<and> shape distances = P' @ [1] @ Q' @ [N]
      \<and> length Q' = length Q
      \<and> broadcast_shape P P' = Some P'' \<and> broadcast_shape Q Q' = Some Q''
    \<longrightarrow> (\<exists>color opacity weights.
          compute_radiance samples distances = Inr (color, opacity, weights)
          \<and> shape color = P'' @ [m] @ Q'' @ [3]
          \<and> shape opacity = P'' @ [m] @ Q'' @ [1]
          \<and> shape weights = P'' @ [m] @ Q'' @ [N]))
   \<and> (shape samples = P @ [m] @ Q @ [N, 4] \<and> shape distances = P' @ [k] @ Q' @ [N']
      \<and> length Q' = length Q \<and> m \<noteq> k \<and> m \<noteq> 1 \<and> k \<noteq> 1
    \<longrightarrow> compute_radiance samples distances = Inl ShapeError)"
proof (intro conjI impI)
  assume h: "shape samples = P @ [m] @ Q @ [N, 4] \<and> shape distances = P' @ [1] @ Q' @ [N]
      \<and> length Q' = length Q
      \<and> broadcast_shape P P' = Some P'' \<and> broadcast_shape Q Q' = Some Q''"
  let ?r = "compute_radiance samples distances"
  have ss: "shape samples = (P @ [m] @ Q) @ [N, 4]" using h by simp
  have sd: "shape distances = (P' @ [1] @ Q') @ [N]" using h by simp
  have bc: "broadcast_shape (P @ [m] @ Q) (P' @ [1] @ Q') = Some (P'' @ [m] @ Q'')"
    using h by (intro broadcast_shape_unit_axis) simp_all
  have r: "?r = Inr (color_of ?r, opacity_of ?r, weights_of ?r)"
    using outputs_items(1) [OF ss sd bc]
    by (cases ?r) (simp_all add: color_of_def opacity_of_def weights_of_def)
  show "\<exists>color opacity weights.
          compute_radiance samples distances = Inr (color, opacity, weights)
          \<and> shape color = P'' @ [m] @ Q'' @ [3]
          \<and> shape opacity = P'' @ [m] @ Q'' @ [1]
          \<and> shape weights = P'' @ [m] @ Q'' @ [N]"
    apply (rule exI [of _ "color_of ?r"])
    apply (rule exI [of _ "opacity_of ?r"])
    apply (rule exI [of _ "weights_of ?r"])
    using r outputs_items(2-4) [OF ss sd bc] by simp
next
  assume h: "shape samples = P @ [m] @ Q @ [N, 4] \<and> shape distances = P' @ [k] @ Q' @ [N']
      \<and> length Q' = length Q \<and> m \<noteq> k \<and> m \<noteq> 1 \<and> k \<noteq> 1"
  have ss: "shape samples = (P @ [m] @ Q) @ [N, 4]" using h by simp
  have sd: "shape distances = (P' @ [k] @ Q') @ [N']" using h by simp
  have "broadcast_shape (P @ [m] @ Q) (P' @ [k] @ Q') = None"
    using h by (intro broadcast_shape_mismatch) simp_all
  then have "precondition_violated (shape samples) (shape distances)"
    unfolding precondition_violated_def incompatible_batch_iff ss sd
    by (simp add: butlast_append)
  then show "compute_radiance samples distances = Inl ShapeError"
    by (rule violated_raises)
qed

theorem batch_broadcasting_witness:
  "(\<exists>color opacity weights.
      compute_radiance batch_samples single_distances = Inr (color, opacity, weights)
      \<and> shape color = [5, 3] \<and> shape opacity = [5, 1] \<and> shape weights = [5, 2])
   \<and> compute_radiance batch_samples pair_distances = Inl ShapeError"
proof -
  have s: "shape batch_samples = [] @ [5] @ [] @ [2, 4]" by (simp add: batch_samples_def)
  have d1: "shape single_distances = [] @ [1] @ [] @ [2]" by (simp add: single_distances_def)
  have d2: "shape pair_distances = [] @ [2] @ [] @ [2]" by (simp add: pair_distances_def)
  have b: "broadcast_shape [] [] = Some []" by (rule broadcast_shape_refl)
  have 1: "\<exists>color opacity weights.
      compute_radiance batch_samples single_distances = Inr (color, opacity, weights)
      \<and> shape color = [] @ [5] @ [] @ [3] \<and> shape opacity = [] @ [5] @ [] @ [1]
      \<and> shape weights = [] @ [5] @ [] @ [2]"
    using batch_broadcasting [of batch_samples "[]" 5 "[]" 2 single_distances "[]" "[]" "[]" "[]",
        THEN conjunct1] s d1 b by blast
  have 2: "compute_radiance batch_samples pair_distances = Inl ShapeError"
    using batch_broadcasting [of batch_samples "[]" 5 "[]" 2 pair_distances "[]" "[]" "[]" "[]" 2 2,
        THEN conjunct2] s d2 by simp
  show ?thesis using 1 2 by simp
qed

end
